theory Spec2Isabelle
  imports Complex_Main "HOL-Library.Sublist" "HOL-Library.AList"
begin

section \<open>Python strings\<close>

text \<open>
  Strings are lists of characters. The character classes are the ASCII ones: Python's
  \<open>str.lower\<close>, \<open>str.upper\<close>, \<open>str.isalnum\<close>, \<open>str.isspace\<close> and the regular
  expression class \<open>\w\<close> are modelled on ASCII input.
\<close>

definition is_upper :: "char \<Rightarrow> bool" where
  "is_upper c = (65 \<le> (of_char c :: nat) \<and> (of_char c :: nat) \<le> 90)"

definition is_lower :: "char \<Rightarrow> bool" where
  "is_lower c = (97 \<le> (of_char c :: nat) \<and> (of_char c :: nat) \<le> 122)"

definition is_digit :: "char \<Rightarrow> bool" where
  "is_digit c = (48 \<le> (of_char c :: nat) \<and> (of_char c :: nat) \<le> 57)"

definition is_alpha :: "char \<Rightarrow> bool" where
  "is_alpha c = (is_upper c \<or> is_lower c)"

definition is_alnum :: "char \<Rightarrow> bool" where
  "is_alnum c = (is_alpha c \<or> is_digit c)"

text \<open>The class \<open>\w\<close> of \<open>re\<close>: letters, digits and the underscore.\<close>

definition is_word :: "char \<Rightarrow> bool" where
  "is_word c = (is_alnum c \<or> c = CHR ''_'')"

text \<open>\<open>str.isspace\<close> on ASCII: tab to carriage return, the separators 28 to 31, space.\<close>

definition is_space :: "char \<Rightarrow> bool" where
  "is_space c = ((9 \<le> (of_char c :: nat) \<and> (of_char c :: nat) \<le> 13)
     \<or> (28 \<le> (of_char c :: nat) \<and> (of_char c :: nat) \<le> 32))"

definition lower_char :: "char \<Rightarrow> char" where
  "lower_char c = (if is_upper c then char_of ((of_char c :: nat) + 32) else c)"

definition upper_char :: "char \<Rightarrow> char" where
  "upper_char c = (if is_lower c then char_of ((of_char c :: nat) - 32) else c)"

definition lower :: "string \<Rightarrow> string" where
  "lower s = map lower_char s"

definition upper :: "string \<Rightarrow> string" where
  "upper s = map upper_char s"

text \<open>\<open>s.strip()\<close>\<close>

definition strip :: "string \<Rightarrow> string" where
  "strip s = rev (dropWhile is_space (rev (dropWhile is_space s)))"

text \<open>\<open>s.startswith(p)\<close>, \<open>s.endswith(p)\<close> and \<open>p in s\<close>, with the string first as in Python\<close>

definition startswith :: "string \<Rightarrow> string \<Rightarrow> bool" where
  "startswith s p = prefix p s"

definition endswith :: "string \<Rightarrow> string \<Rightarrow> bool" where
  "endswith s p = suffix p s"

definition contains :: "string \<Rightarrow> string \<Rightarrow> bool" where
  "contains s p = sublist p s"

text \<open>\<open>s.split(c)\<close> for a one-character separator: never the empty list.\<close>

fun split_on :: "char \<Rightarrow> string \<Rightarrow> string list" where
  "split_on sep [] = [[]]"
| "split_on sep (c # cs) =
     (if c = sep then [] # split_on sep cs
      else (case split_on sep cs of
              [] \<Rightarrow> [[c]]
            | w # ws \<Rightarrow> (c # w) # ws))"

text \<open>\<open>s.split()\<close>: the maximal runs of characters that are not white space.\<close>

fun split_ws_acc :: "string \<Rightarrow> string \<Rightarrow> string list" where
  "split_ws_acc cur [] = (if cur = [] then [] else [rev cur])"
| "split_ws_acc cur (c # cs) =
     (if is_space c then (if cur = [] then split_ws_acc [] cs else rev cur # split_ws_acc [] cs)
      else split_ws_acc (c # cur) cs)"

definition split_ws :: "string \<Rightarrow> string list" where
  "split_ws s = split_ws_acc [] s"

text \<open>\<open>sep.join(ws)\<close>\<close>

fun join :: "string \<Rightarrow> string list \<Rightarrow> string" where
  "join sep [] = []"
| "join sep [w] = w"
| "join sep (w # ws) = w @ sep @ join sep ws"

text \<open>\<open>re.sub(r'[^\w]', ' ', s)\<close>\<close>

definition re_sub_nonword :: "string \<Rightarrow> string" where
  "re_sub_nonword s = map (\<lambda>c. if is_word c then c else CHR '' '') s"

section \<open>Exceptions\<close>

datatype py_error = ValueError | AttributeError | KeyError | TypeError | ZeroDivisionError

section \<open>\<open>urllib.parse.urlparse\<close>\<close>

text \<open>
  \<open>urlparse\<close> belongs to Python's standard library, not to the repository. The model
  follows \<open>urlsplit\<close> for the fields the repository reads (\<open>netloc\<close>, \<open>path\<close>, \<open>query\<close>):
  leading control characters and spaces are dropped, tab, carriage return and line feed are
  removed, a scheme is split off at the first colon, a network location follows \<open>//\<close> up to
  the first of \<open>/\<close>, \<open>?\<close> and \<open>#\<close>, and a network location with an unmatched square bracket
  raises \<open>ValueError\<close>.
\<close>

record parse_result =
  scheme :: string
  netloc :: string
  path :: string
  query :: string
  fragment :: string

definition is_scheme_char :: "char \<Rightarrow> bool" where
  "is_scheme_char c = (is_alnum c \<or> c \<in> set ''+-.'')"

definition is_unsafe_url_char :: "char \<Rightarrow> bool" where
  "is_unsafe_url_char c = (c \<in> set [CHR 0x09, CHR 0x0A, CHR 0x0D])"

definition split_scheme :: "string \<Rightarrow> string \<times> string" where
  "split_scheme url =
     (let pre = takeWhile (\<lambda>c. c \<noteq> CHR '':'') url in
      if length pre < length url \<and> pre \<noteq> [] \<and> is_alpha (hd pre) \<and> list_all is_scheme_char pre
      then (lower pre, drop (length pre + 1) url)
      else ([], url))"

definition splitnetloc :: "string \<Rightarrow> string \<times> string" where
  "splitnetloc url =
     (let rest = drop 2 url;
          loc = takeWhile (\<lambda>c. c \<notin> set ''/?#'') rest
      in (loc, drop (length loc) rest))"

definition split_first :: "char \<Rightarrow> string \<Rightarrow> string \<times> string" where
  "split_first sep s =
     (let pre = takeWhile (\<lambda>c. c \<noteq> sep) s in (pre, drop (length pre + 1) s))"

definition urlparse :: "string \<Rightarrow> py_error + parse_result" where
  "urlparse url0 =
     (let url1 = filter (\<lambda>c. \<not> is_unsafe_url_char c)
                   (dropWhile (\<lambda>c. (of_char c :: nat) \<le> 32) url0);
          (sch, url2) = split_scheme url1;
          (loc, url3) = (if take 2 url2 = ''//'' then splitnetloc url2 else ([], url2))
      in if (CHR ''['' \<in> set loc \<and> CHR '']'' \<notin> set loc)
            \<or> (CHR '']'' \<in> set loc \<and> CHR ''['' \<notin> set loc)
         then Inl ValueError
         else
           (let (url4, frag) = split_first CHR ''#'' url3;
                (url5, qry) = split_first CHR ''?'' url4
            in Inr \<lparr>scheme = sch, netloc = loc, path = url5, query = qry, fragment = frag\<rparr>))"

section \<open>Data model (\<open>src/core/models.py\<close>)\<close>

record Company =
  company_number :: string
  company_name :: string
  postcode :: string
  sic_codes :: "string option"
  extra_data :: "(string \<times> string) list option"

text \<open>
  The filters and the scorer import \<open>SearchResult\<close> from \<open>src/search/client.py\<close>, a
  plain dataclass that accepts any position.
\<close>

record SearchResult =
  url :: string
  title :: string
  snippet :: string
  position :: int

section \<open>Static blocklist filter (\<open>src/filtering/blocklist.py\<close>)\<close>

record BlocklistFilter =
  blocklist :: "string list"

text \<open>\<open>BlocklistFilter.__init__\<close>\<close>

definition BlocklistFilter_init :: "string list \<Rightarrow> BlocklistFilter" where
  "BlocklistFilter_init bl =
     \<lparr>blocklist = map (\<lambda>d. strip (lower d)) (filter (\<lambda>d. strip d \<noteq> []) bl)\<rparr>"

text \<open>The domain \<open>_is_blocked\<close> compares: the network location, lower-cased, without a leading \<open>www.\<close>\<close>

definition blocklist_domain :: "parse_result \<Rightarrow> string" where
  "blocklist_domain parsed =
     (let domain = lower (netloc parsed)
      in if startswith domain ''www.'' then drop 4 domain else domain)"

text \<open>The loop of \<open>_is_blocked\<close> over the blocklist, returning at the first match.\<close>

fun blocked_by :: "string \<Rightarrow> string list \<Rightarrow> bool" where
  "blocked_by domain [] = False"
| "blocked_by domain (blocked_domain # rest) =
     (if domain = blocked_domain \<or> endswith domain (''.'' @ blocked_domain) then True
      else blocked_by domain rest)"

text \<open>\<open>BlocklistFilter._is_blocked\<close>: the \<open>ValueError\<close> of \<open>urlparse\<close> is caught.\<close>

definition is_blocked :: "BlocklistFilter \<Rightarrow> string \<Rightarrow> bool" where
  "is_blocked self u =
     (if u = [] then False
      else (case urlparse u of
              Inl e \<Rightarrow> False
            | Inr parsed \<Rightarrow> blocked_by (blocklist_domain parsed) (blocklist self)))"

text \<open>\<open>BlocklistFilter.filter_results\<close>\<close>

definition filter_results :: "BlocklistFilter \<Rightarrow> SearchResult list \<Rightarrow> SearchResult list" where
  "filter_results self results =
     (if results = [] then []
      else filter (\<lambda>result. \<not> is_blocked self (url result)) results)"

section \<open>Floating-point numbers\<close>

text \<open>
  Python floats are modelled as real numbers, so arithmetic is exact. \<open>round(x, 2)\<close>
  rounds to two decimals, a tie going to the even neighbour.
\<close>

definition round_half_even :: "real \<Rightarrow> int" where
  "round_half_even x =
     (let f = \<lfloor>x\<rfloor>; d = x - of_int f
      in if d < 1 / 2 then f
         else if 1 / 2 < d then f + 1
         else if even f then f else f + 1)"

definition round2 :: "real \<Rightarrow> real" where
  "round2 x = of_int (round_half_even (x * 100)) / 100"

section \<open>Confidence scorer (\<open>src/scoring/confidence.py\<close>)\<close>

text \<open>
  The weights are a dictionary, kept as an association list in insertion order. The four
  \<open>_last_*_score\<close> attributes do not exist before the first call of \<open>calculate_score\<close>.
\<close>

record ConfidenceScorer =
  weights :: "(string \<times> real) list"
  last_domain_score :: "real option"
  last_tld_score :: "real option"
  last_position_score :: "real option"
  last_title_score :: "real option"

definition default_weights :: "(string \<times> real) list" where
  "default_weights =
     [(''domain_match'', 0.4), (''tld_relevance'', 0.4),
      (''search_position'', 0.1), (''title_match'', 0.1)]"

text \<open>\<open>sum(self.weights.values())\<close>\<close>

definition sum_values :: "(string \<times> real) list \<Rightarrow> real" where
  "sum_values ws = sum_list (map snd ws)"

text \<open>
  \<open>ConfidenceScorer.__init__\<close>: \<open>weights or {...}\<close> takes the defaults for \<open>None\<close> and
  for the empty dictionary; the weights are divided by their sum only when it is positive.
\<close>

definition ConfidenceScorer_init :: "(string \<times> real) list option \<Rightarrow> ConfidenceScorer" where
  "ConfidenceScorer_init ws_opt =
     (let ws = (case ws_opt of None \<Rightarrow> default_weights
                | Some ws' \<Rightarrow> (if ws' = [] then default_weights else ws'));
          total_weight = sum_values ws;
          ws_norm = (if 0 < total_weight then map (\<lambda>(k, v). (k, v / total_weight)) ws else ws)
      in \<lparr>weights = ws_norm, last_domain_score = None, last_tld_score = None,
          last_position_score = None, last_title_score = None\<rparr>)"

text \<open>\<open>self.weights[key]\<close>\<close>

definition weight_of :: "ConfidenceScorer \<Rightarrow> string \<Rightarrow> py_error + real" where
  "weight_of self k = (case map_of (weights self) k of None \<Rightarrow> Inl KeyError | Some v \<Rightarrow> Inr v)"

definition common_suffixes :: "string list" where
  "common_suffixes = [''LIMITED'', ''LTD'', ''PLC'', ''LLC'', ''INC'', ''CORP'', ''CO'', ''GROUP'']"

text \<open>\<open>ConfidenceScorer._clean_company_name_for_matching\<close>\<close>

definition clean_company_name_for_matching :: "string \<Rightarrow> string" where
  "clean_company_name_for_matching name =
     (let clean_name = upper (re_sub_nonword name);
          ws = split_ws clean_name
      in if 1 < length ws \<and> last ws \<in> set common_suffixes then join '' '' (butlast ws)
         else name)"

text \<open>The domain of \<open>_calculate_domain_match\<close> (lines 107 to 122): the registrable part.\<close>

definition main_domain :: "string \<Rightarrow> string" where
  "main_domain loc =
     (let domain0 = lower loc;
          domain = (if startswith domain0 ''www.'' then drop 4 domain0 else domain0);
          domain_parts = split_on CHR ''.'' domain;
          n = length domain_parts
      in if 2 < n then
           (if domain_parts ! (n - 2) \<in> set [''co'', ''com'', ''org'', ''net'']
               \<and> domain_parts ! (n - 1) \<in> set [''uk'']
            then join ''.'' (drop (n - 3) domain_parts)
            else join ''.'' (drop (n - 2) domain_parts))
         else domain)"

text \<open>\<open>sum(1 for ca, cb in zip(a, b) if ca == cb)\<close>\<close>

definition position_matches :: "string \<Rightarrow> string \<Rightarrow> nat" where
  "position_matches a b = length (filter (\<lambda>(ca, cb). ca = cb) (zip a b))"

text \<open>
  The edit distance ratio of lines 154 to 158 and 183 to 187, computed there only when
  the lengths differ, so that the divisor is positive.
\<close>

definition edit_distance_ratio :: "string \<Rightarrow> string \<Rightarrow> real" where
  "edit_distance_ratio a b =
     (let length_diff = \<bar>int (length a) - int (length b)\<bar>;
          matches = position_matches a b;
          edit_dist = real_of_int length_diff + (real (length a) - real matches) * 0.5
      in edit_dist / real (max (length a) (length b)))"

text \<open>
  \<open>simple_edit_distance\<close> (lines 233 to 253) returns one number when an argument is
  empty and a pair otherwise.
\<close>

definition simple_edit_distance :: "string \<Rightarrow> string \<Rightarrow> real + real \<times> real" where
  "simple_edit_distance a b =
     (if a = [] \<or> b = [] then Inl (real (max (length a) (length b)))
      else
        (let length_diff = \<bar>int (length a) - int (length b)\<bar>;
             matches = position_matches a b;
             max_len = max (length a) (length b);
             match_percentage = (if 0 < max_len then real matches / real max_len else 0);
             approx_distance = real_of_int length_diff + (real (length a) - real matches) * 0.5
         in Inr (approx_distance, match_percentage)))"

text \<open>Lines 143 to 145: the boost when the domain starts with the popped word.\<close>

definition boost_first_word :: "string \<Rightarrow> string \<Rightarrow> real \<Rightarrow> real" where
  "boost_first_word domain first_word match_ratio =
     (if startswith domain first_word then min 1 (match_ratio + 0.2) else match_ratio)"

text \<open>Lines 152 to 176: containment in either direction and its three \<open>elif\<close> branches.\<close>

definition fuzzy_match :: "string \<Rightarrow> string \<Rightarrow> string list \<Rightarrow> real \<Rightarrow> real" where
  "fuzzy_match company_name_clean domain_clean company_words match_ratio =
     (if contains domain_clean company_name_clean \<or> contains company_name_clean domain_clean then
        (if length company_name_clean \<noteq> length domain_clean then
           (if 0.2 < edit_distance_ratio company_name_clean domain_clean
            then max match_ratio 0.6
            else max match_ratio 0.9)
         else max match_ratio 0.9)
      else if company_words \<noteq> [] \<and> list_ex (\<lambda>w. contains domain_clean w) company_words
        then max match_ratio 0.7
      else if 3 \<le> length domain_clean \<and> contains company_name_clean domain_clean
        then max match_ratio 0.8
      else if startswith domain_clean (take 4 company_name_clean)
              \<or> startswith company_name_clean (take 4 domain_clean)
        then max match_ratio 0.5
      else match_ratio)"

text \<open>Lines 180 to 195: the domain starts with the first four characters of the name.\<close>

definition prefix_match :: "string \<Rightarrow> string \<Rightarrow> real \<Rightarrow> real" where
  "prefix_match company_name_clean domain_clean match_ratio =
     (let company_prefix = take (min 4 (length company_name_clean)) company_name_clean
      in if startswith domain_clean company_prefix then
           (if length company_name_clean \<noteq> length domain_clean then
              (if 0.2 < edit_distance_ratio company_name_clean domain_clean
               then max match_ratio 0.3
               else max match_ratio 0.8)
            else max match_ratio 0.8)
         else match_ratio)"

text \<open>Lines 198 to 202\<close>

definition hyphen_match :: "string \<Rightarrow> string \<Rightarrow> real \<Rightarrow> real" where
  "hyphen_match company_name_clean domain_clean match_ratio =
     (let domain_no_hyphen = filter (\<lambda>c. c \<noteq> CHR ''-'') domain_clean;
          company_no_hyphen = filter (\<lambda>c. c \<noteq> CHR ''-'') company_name_clean
      in if contains domain_no_hyphen company_no_hyphen \<or> contains company_no_hyphen domain_no_hyphen
         then max match_ratio 0.95
         else match_ratio)"

text \<open>Lines 205 to 206\<close>

definition acronym_match :: "string \<Rightarrow> string \<Rightarrow> real \<Rightarrow> real" where
  "acronym_match company_name_clean domain_clean match_ratio =
     (if length company_name_clean \<le> 4 \<and> contains domain_clean (lower company_name_clean)
      then max match_ratio 0.9
      else match_ratio)"

text \<open>Lines 209 to 227: \<open>company_words\<close> is the set after \<open>pop\<close>, in iteration order.\<close>

definition initialism_match :: "string \<Rightarrow> string \<Rightarrow> string list \<Rightarrow> real \<Rightarrow> real" where
  "initialism_match company_name_clean domain_clean company_words match_ratio =
     (let company_initials = map hd (filter (\<lambda>w. 0 < length w) company_words)
      in if 2 \<le> length company_initials \<and> contains domain_clean (lower company_initials)
            \<and> 2 \<le> length company_words
         then
           (let initials_score =
                  (if 0 < length company_name_clean \<and> 0 < length domain_clean then
                     (let overlap = length (filter (\<lambda>c. c \<in> set domain_clean) (remdups company_name_clean));
                          similarity = real overlap
                                         / real (max (length company_name_clean) (length domain_clean))
                      in if similarity < 0.4 then max 0.2 (0.5 * similarity * 1.5) else 0.5)
                   else 0.5)
            in max match_ratio initials_score)
         else match_ratio)"

text \<open>
  Lines 231 to 272. Unpacking the result of \<open>simple_edit_distance\<close> into two names raises
  \<open>TypeError\<close> when it is a single number.
\<close>

definition edit_distance_check :: "string \<Rightarrow> string \<Rightarrow> real \<Rightarrow> py_error + real" where
  "edit_distance_check company_name_clean domain_clean match_ratio =
     (if 0.5 \<le> match_ratio \<and> match_ratio \<le> 0.75 then
        (case simple_edit_distance company_name_clean domain_clean of
           Inl n \<Rightarrow> Inl TypeError
         | Inr (edit_dist, match_pct) \<Rightarrow>
             (let max_length = max (length company_name_clean) (length domain_clean)
              in if 0 < max_length then
                   (let ratio = edit_dist / real max_length
                    in if 0.5 < ratio then
                         (let penalty = min 0.6 (ratio * 1.5)
                          in Inr (max 0.15 (match_ratio * (1.0 - penalty))))
                       else if ratio < 0.1 \<and> 0.8 < match_pct then Inr (min 0.95 (match_ratio * 1.1))
                       else Inr match_ratio)
                 else Inr match_ratio))
      else Inr match_ratio)"

text \<open>
  Lines 127 to 272 of \<open>_calculate_domain_match\<close>. \<open>company_words_iter\<close> is the set
  \<open>company_words\<close> in the order Python iterates it; \<open>pop\<close> removes its first element.
\<close>

definition domain_match_ratio :: "string list \<Rightarrow> string \<Rightarrow> string \<Rightarrow> py_error + real" where
  "domain_match_ratio company_words_iter company_name' domain =
     (let domain_words = filter (\<lambda>w. 2 < length w) (split_ws (re_sub_nonword domain));
          matches = length (filter (\<lambda>w. w \<in> set domain_words) company_words_iter)
      in if company_words_iter = [] then Inr 0
         else
           (let match_ratio0 = real matches / real (length company_words_iter);
                first_word = hd company_words_iter;
                company_words = tl company_words_iter;
                match_ratio1 = boost_first_word domain first_word match_ratio0;
                company_name_clean = filter is_alnum company_name';
                domain_clean = filter is_alnum domain;
                match_ratio2 = fuzzy_match company_name_clean domain_clean company_words match_ratio1;
                match_ratio3 = prefix_match company_name_clean domain_clean match_ratio2;
                match_ratio4 = hyphen_match company_name_clean domain_clean match_ratio3;
                match_ratio5 = acronym_match company_name_clean domain_clean match_ratio4;
                match_ratio6 = initialism_match company_name_clean domain_clean company_words match_ratio5
            in edit_distance_check company_name_clean domain_clean match_ratio6))"

text \<open>\<open>try: ... except (ValueError, AttributeError): return dflt\<close>\<close>

definition catching :: "py_error + real \<Rightarrow> real \<Rightarrow> py_error + real" where
  "catching body dflt =
     (case body of
        Inl e \<Rightarrow> (if e = ValueError \<or> e = AttributeError then Inr dflt else Inl e)
      | Inr v \<Rightarrow> Inr v)"

text \<open>
  \<open>ConfidenceScorer._calculate_domain_match\<close>. A Python set has no specified iteration
  order: \<open>set_iter\<close> gives the order in which the set built from a list of words is
  iterated.
\<close>

definition calculate_domain_match ::
  "(string list \<Rightarrow> string list) \<Rightarrow> Company \<Rightarrow> SearchResult \<Rightarrow> py_error + real" where
  "calculate_domain_match set_iter company result =
     (if url result = [] then Inr 0
      else catching
        (case urlparse (url result) of
           Inl e \<Rightarrow> Inl e
         | Inr parsed \<Rightarrow>
             (let domain = main_domain (netloc parsed);
                  company_name_cleaned = clean_company_name_for_matching (company_name company);
                  company_name' = lower (re_sub_nonword company_name_cleaned);
                  company_words_iter = set_iter (split_ws company_name')
              in domain_match_ratio company_words_iter company_name' domain))
        0)"

text \<open>
  The regular expression \<open>^[A-Z]{1,2}\d[A-Z\d]? ?\d[A-Z]{2}$\<close> of
  \<open>_calculate_tld_relevance\<close>, matched against the whole string: \<open>uk_postcode_tail\<close> is
  \<open> ?\d[A-Z]{2}$\<close>, \<open>uk_postcode_mid\<close> is \<open>\d[A-Z\d]?\<close> followed by the tail.
\<close>

definition uk_postcode_tail :: "string \<Rightarrow> bool" where
  "uk_postcode_tail s =
     (case s of
        [d, x, y] \<Rightarrow> is_digit d \<and> is_upper x \<and> is_upper y
      | [sp, d, x, y] \<Rightarrow> sp = CHR '' '' \<and> is_digit d \<and> is_upper x \<and> is_upper y
      | _ \<Rightarrow> False)"

definition uk_postcode_mid :: "string \<Rightarrow> bool" where
  "uk_postcode_mid s =
     (case s of
        [] \<Rightarrow> False
      | d # r \<Rightarrow> is_digit d \<and>
          (uk_postcode_tail r \<or>
           (case r of [] \<Rightarrow> False
            | a # r' \<Rightarrow> (is_upper a \<or> is_digit a) \<and> uk_postcode_tail r')))"

definition uk_postcode_match :: "string \<Rightarrow> bool" where
  "uk_postcode_match s =
     (case s of
        [] \<Rightarrow> False
      | a # r \<Rightarrow> is_upper a \<and>
          (uk_postcode_mid r \<or>
           (case r of [] \<Rightarrow> False | b # r' \<Rightarrow> is_upper b \<and> uk_postcode_mid r')))"

definition uk_tlds :: "string list" where
  "uk_tlds = [''.co.uk'', ''.uk'', ''.org.uk'', ''.me.uk'', ''.net.uk'']"

definition country_tlds :: "string list" where
  "country_tlds = [''.us'', ''.ca'', ''.au'', ''.de'', ''.fr'', ''.jp'', ''.cn'', ''.ae'', ''.sg'']"

definition common_tlds :: "string list" where
  "common_tlds = [''.com'', ''.org'', ''.net'', ''.io'', ''.biz'']"

text \<open>Lines 297 to 321 of \<open>_calculate_tld_relevance\<close>, each loop returning at its first hit.\<close>

definition tld_score :: "string \<Rightarrow> bool \<Rightarrow> real" where
  "tld_score domain is_uk_company =
     (if list_ex (\<lambda>tld. endswith domain tld) uk_tlds then (if is_uk_company then 1.0 else 0.8)
      else if is_uk_company \<and> endswith domain ''.in'' then 0.05
      else if is_uk_company \<and> list_ex (\<lambda>tld. endswith domain tld) country_tlds then 0.1
      else if list_ex (\<lambda>tld. endswith domain tld) common_tlds
        then (if is_uk_company then 0.5 else 0.7)
      else 0.2)"

text \<open>\<open>ConfidenceScorer._calculate_tld_relevance\<close>; the company argument is optional.\<close>

definition calculate_tld_relevance :: "SearchResult \<Rightarrow> Company option \<Rightarrow> py_error + real" where
  "calculate_tld_relevance result company =
     (if url result = [] then Inr 0
      else catching
        (case urlparse (url result) of
           Inl e \<Rightarrow> Inl e
         | Inr parsed \<Rightarrow>
             (let domain = lower (netloc parsed);
                  is_uk_company =
                    (case company of
                       None \<Rightarrow> False
                     | Some c \<Rightarrow>
                         (if postcode c \<noteq> [] then uk_postcode_match (strip (upper (postcode c)))
                          else False))
              in Inr (tld_score domain is_uk_company)))
        0.2)"

text \<open>\<open>ConfidenceScorer._calculate_position_score\<close>\<close>

definition calculate_position_score :: "SearchResult \<Rightarrow> real" where
  "calculate_position_score result =
     (if position result \<le> 0 then 0.0
      else if position result = 1 then 1.0
      else if position result = 2 then 0.8
      else if position result \<le> 5 then 0.6
      else if position result \<le> 10 then 0.4
      else max 0.0 (0.7 - (real_of_int (position result) * 0.05)))"

definition stop_words :: "string list" where
  "stop_words = [''the'', ''and'', ''of'', ''for'', ''a'', ''an'', ''in'', ''on'', ''at'', ''to'']"

text \<open>
  \<open>ConfidenceScorer._calculate_title_match\<close>. The two word sets are lists without
  duplicates; only their sizes are used. Nothing in the body raises.
\<close>

definition calculate_title_match :: "Company \<Rightarrow> SearchResult \<Rightarrow> real" where
  "calculate_title_match company result =
     (if title result = [] then 0.0
      else
        (let company_name' = lower (re_sub_nonword (company_name company));
             title' = lower (re_sub_nonword (title result));
             company_words = remdups (filter (\<lambda>w. w \<notin> set stop_words \<and> 2 < length w)
                                        (split_ws company_name'));
             title_words = remdups (filter (\<lambda>w. w \<notin> set stop_words \<and> 2 < length w)
                                      (split_ws title'))
         in if company_words = [] then 0.0
            else
              (let intersection = filter (\<lambda>w. w \<in> set title_words) company_words;
                   union = remdups (company_words @ title_words)
               in if union = [] then 0.0
                  else
                    (let similarity = real (length intersection) / real (length union)
                     in if contains title' company_name' then min 1.0 (similarity + 0.3)
                        else similarity))))"

text \<open>
  \<open>ConfidenceScorer.calculate_score\<close>: the result and the scorer afterwards. The four
  sub-scores are stored before the weights are looked up.
\<close>

definition calculate_score ::
  "(string list \<Rightarrow> string list) \<Rightarrow> ConfidenceScorer \<Rightarrow> Company \<Rightarrow> SearchResult
     \<Rightarrow> (py_error + real) \<times> ConfidenceScorer" where
  "calculate_score set_iter self company result =
     (case calculate_domain_match set_iter company result of
        Inl e \<Rightarrow> (Inl e, self)
      | Inr domain_score \<Rightarrow>
          (case calculate_tld_relevance result (Some company) of
             Inl e \<Rightarrow> (Inl e, self)
           | Inr tld_score' \<Rightarrow>
               (let position_score = calculate_position_score result;
                    title_score = calculate_title_match company result;
                    self' = self\<lparr>last_domain_score := Some domain_score,
                                 last_tld_score := Some tld_score',
                                 last_position_score := Some position_score,
                                 last_title_score := Some title_score\<rparr>
                in (case weight_of self' ''domain_match'' of
                      Inl e \<Rightarrow> (Inl e, self')
                    | Inr w_domain \<Rightarrow>
                   (case weight_of self' ''tld_relevance'' of
                      Inl e \<Rightarrow> (Inl e, self')
                    | Inr w_tld \<Rightarrow>
                   (case weight_of self' ''search_position'' of
                      Inl e \<Rightarrow> (Inl e, self')
                    | Inr w_position \<Rightarrow>
                   (case weight_of self' ''title_match'' of
                      Inl e \<Rightarrow> (Inl e, self')
                    | Inr w_title \<Rightarrow>
                        (let confidence = domain_score * w_domain + tld_score' * w_tld
                                            + position_score * w_position + title_score * w_title
                         in (Inr (round2 (confidence * 100)), self')))))))))"

text \<open>\<open>ConfidenceScorer.get_scoring_details\<close>, in the order domain, TLD, position, title.\<close>

definition get_scoring_details :: "ConfidenceScorer \<Rightarrow> real \<times> real \<times> real \<times> real" where
  "get_scoring_details self =
     (case_option 0.0 id (last_domain_score self), case_option 0.0 id (last_tld_score self),
      case_option 0.0 id (last_position_score self), case_option 0.0 id (last_title_score self))"

text \<open>The loop of \<open>filter_by_confidence\<close>; an exception of \<open>calculate_score\<close> ends it.\<close>

fun filter_by_confidence_loop ::
  "(string list \<Rightarrow> string list) \<Rightarrow> ConfidenceScorer \<Rightarrow> Company \<Rightarrow> real \<Rightarrow> SearchResult list
     \<Rightarrow> SearchResult list \<Rightarrow> (py_error + SearchResult list) \<times> ConfidenceScorer" where
  "filter_by_confidence_loop set_iter self company threshold filtered [] = (Inr filtered, self)"
| "filter_by_confidence_loop set_iter self company threshold filtered (result # rest) =
     (case calculate_score set_iter self company result of
        (Inl e, self') \<Rightarrow> (Inl e, self')
      | (Inr score, self') \<Rightarrow>
          filter_by_confidence_loop set_iter self' company threshold
            (if threshold \<le> score then filtered @ [result] else filtered) rest)"

text \<open>\<open>ConfidenceScorer.filter_by_confidence\<close>\<close>

definition filter_by_confidence ::
  "(string list \<Rightarrow> string list) \<Rightarrow> ConfidenceScorer \<Rightarrow> SearchResult list \<Rightarrow> Company \<Rightarrow> real
     \<Rightarrow> (py_error + SearchResult list) \<times> ConfidenceScorer" where
  "filter_by_confidence set_iter self results company threshold =
     (if results = [] then (Inr [], self)
      else filter_by_confidence_loop set_iter self company threshold [] results)"

section \<open>Domain frequency tracker (\<open>src/filtering/domain_frequency.py\<close>)\<close>

text \<open>
  The two dictionaries are association lists in insertion order; \<open>AList.update\<close> replaces
  the value of a key in place or appends a new key. Both are \<open>defaultdict\<close>s: a missing key
  reads as 0 or as the empty set.
\<close>

record DomainFrequencyTracker =
  domain_counts :: "(string \<times> int) list"
  company_domains :: "(string \<times> string set) list"
  total_searches :: int

definition DomainFrequencyTracker_init :: DomainFrequencyTracker where
  "DomainFrequencyTracker_init = \<lparr>domain_counts = [], company_domains = [], total_searches = 0\<rparr>"

text \<open>\<open>d.get(k, dflt)\<close>\<close>

definition dict_get :: "(string \<times> 'v) list \<Rightarrow> string \<Rightarrow> 'v \<Rightarrow> 'v" where
  "dict_get d k dflt = (case map_of d k of None \<Rightarrow> dflt | Some v \<Rightarrow> v)"

text \<open>\<open>DomainFrequencyTracker._extract_domain\<close>: \<open>urlparse\<close> is not guarded here.\<close>

definition extract_domain :: "string \<Rightarrow> py_error + string" where
  "extract_domain u =
     (case urlparse u of
        Inl e \<Rightarrow> Inl e
      | Inr parsed \<Rightarrow>
          (let domain = netloc parsed;
               domain' = (if startswith domain ''www.'' then drop 4 domain else domain)
           in Inr (hd (split_on CHR '':'' domain'))))"

text \<open>The loop of \<open>track_search_results\<close>; an exception leaves what was tracked before it.\<close>

fun track_loop ::
  "string \<Rightarrow> DomainFrequencyTracker \<Rightarrow> SearchResult list
     \<Rightarrow> (py_error + unit) \<times> DomainFrequencyTracker" where
  "track_loop name self [] = (Inr (), self)"
| "track_loop name self (result # rest) =
     (case extract_domain (url result) of
        Inl e \<Rightarrow> (Inl e, self)
      | Inr domain \<Rightarrow>
          track_loop name
            (self\<lparr>domain_counts :=
                    AList.update domain (dict_get (domain_counts self) domain 0 + 1)
                      (domain_counts self),
                  company_domains :=
                    AList.update domain (insert name (dict_get (company_domains self) domain {}))
                      (company_domains self)\<rparr>)
            rest)"

text \<open>\<open>DomainFrequencyTracker.track_search_results\<close>\<close>

definition track_search_results ::
  "DomainFrequencyTracker \<Rightarrow> string \<Rightarrow> SearchResult list
     \<Rightarrow> (py_error + unit) \<times> DomainFrequencyTracker" where
  "track_search_results self name search_results =
     track_loop name (self\<lparr>total_searches := total_searches self + 1\<rparr>) search_results"

text \<open>\<open>DomainFrequencyTracker.identify_aggregators\<close>\<close>

definition identify_aggregators :: "DomainFrequencyTracker \<Rightarrow> real \<Rightarrow> int \<Rightarrow> string set" where
  "identify_aggregators self threshold min_occurrences =
     (if total_searches self = 0 then {}
      else fold (\<lambda>(domain, count) aggregators.
                   (let frequency = real_of_int count / real_of_int (total_searches self)
                    in if min_occurrences \<le> count \<and> threshold \<le> frequency
                       then insert domain aggregators else aggregators))
             (domain_counts self) {})"

text \<open>The frequency that \<open>get_domain_stats\<close> and \<open>_is_aggregator\<close> compute.\<close>

definition domain_frequency :: "DomainFrequencyTracker \<Rightarrow> string \<Rightarrow> real" where
  "domain_frequency self domain =
     (let count = dict_get (domain_counts self) domain 0
      in if 0 < total_searches self then real_of_int count / real_of_int (total_searches self)
         else 0)"

text \<open>\<open>DomainFrequencyTracker._is_aggregator\<close>\<close>

definition is_aggregator :: "DomainFrequencyTracker \<Rightarrow> string \<Rightarrow> real \<Rightarrow> int \<Rightarrow> bool" where
  "is_aggregator self domain threshold min_occurrences =
     (let count = dict_get (domain_counts self) domain 0;
          frequency = domain_frequency self domain
      in min_occurrences \<le> count \<and> threshold \<le> frequency)"

text \<open>\<open>DomainFrequencyTracker.get_domain_stats\<close>; the list of companies is kept as the set.\<close>

record domain_stats =
  stats_count :: int
  stats_frequency :: real
  stats_companies :: "string set"
  stats_is_aggregator :: bool

definition get_domain_stats :: "DomainFrequencyTracker \<Rightarrow> string \<Rightarrow> domain_stats" where
  "get_domain_stats self domain =
     \<lparr>stats_count = dict_get (domain_counts self) domain 0,
      stats_frequency = domain_frequency self domain,
      stats_companies = dict_get (company_domains self) domain {},
      stats_is_aggregator = is_aggregator self domain 0.3 3\<rparr>"

text \<open>\<open>DomainFrequencyTracker.reset\<close>\<close>

definition reset :: "DomainFrequencyTracker \<Rightarrow> DomainFrequencyTracker" where
  "reset self = self\<lparr>domain_counts := [], company_domains := [], total_searches := 0\<rparr>"

section \<open>Enhanced blocklist filter\<close>

record EnhancedBlocklistFilter =
  static_blocklist :: "string list"
  frequency_tracker :: DomainFrequencyTracker

text \<open>
  \<open>_apply_static_filter\<close> and \<open>_apply_dynamic_filter\<close> iterate alike: a result stays
  when its domain is outside \<open>blocked\<close>.
\<close>

fun filter_domains :: "string set \<Rightarrow> SearchResult list \<Rightarrow> py_error + SearchResult list" where
  "filter_domains blocked [] = Inr []"
| "filter_domains blocked (result # rest) =
     (case extract_domain (url result) of
        Inl e \<Rightarrow> Inl e
      | Inr domain \<Rightarrow>
          (case filter_domains blocked rest of
             Inl e \<Rightarrow> Inl e
           | Inr filtered \<Rightarrow> Inr (if domain \<notin> blocked then result # filtered else filtered)))"

text \<open>\<open>EnhancedBlocklistFilter._apply_static_filter\<close>\<close>

definition apply_static_filter ::
  "EnhancedBlocklistFilter \<Rightarrow> SearchResult list \<Rightarrow> py_error + SearchResult list" where
  "apply_static_filter self results = filter_domains (set (static_blocklist self)) results"

text \<open>\<open>EnhancedBlocklistFilter._apply_dynamic_filter\<close>\<close>

definition apply_dynamic_filter ::
  "EnhancedBlocklistFilter \<Rightarrow> SearchResult list \<Rightarrow> string
     \<Rightarrow> (py_error + SearchResult list) \<times> EnhancedBlocklistFilter" where
  "apply_dynamic_filter self results name =
     (case track_search_results (frequency_tracker self) name results of
        (Inl e, tracker') \<Rightarrow> (Inl e, self\<lparr>frequency_tracker := tracker'\<rparr>)
      | (Inr u, tracker') \<Rightarrow>
          (filter_domains (identify_aggregators tracker' 0.3 3) results,
           self\<lparr>frequency_tracker := tracker'\<rparr>))"

text \<open>\<open>EnhancedBlocklistFilter.filter_results\<close>\<close>

definition enhanced_filter_results ::
  "EnhancedBlocklistFilter \<Rightarrow> SearchResult list \<Rightarrow> string
     \<Rightarrow> (py_error + SearchResult list) \<times> EnhancedBlocklistFilter" where
  "enhanced_filter_results self results name =
     (case apply_static_filter self results of
        Inl e \<Rightarrow> (Inl e, self)
      | Inr filtered \<Rightarrow> apply_dynamic_filter self filtered name)"

text \<open>
  An entry of the report of \<open>get_suspected_aggregators\<close>; the list of companies is kept
  as the set it is built from.
\<close>

record suspect =
  sus_domain :: string
  sus_count :: int
  sus_frequency :: real
  sus_companies :: "string set"

text \<open>The loop of \<open>get_suspected_aggregators\<close>: the division is not guarded.\<close>

fun suspected_loop ::
  "EnhancedBlocklistFilter \<Rightarrow> string set \<Rightarrow> real \<Rightarrow> (string \<times> int) list \<Rightarrow> suspect list
     \<Rightarrow> py_error + suspect list" where
  "suspected_loop self confirmed min_suspicion [] suspected = Inr suspected"
| "suspected_loop self confirmed min_suspicion ((domain, count) # rest) suspected =
     (if domain \<in> set (static_blocklist self) \<or> domain \<in> confirmed
      then suspected_loop self confirmed min_suspicion rest suspected
      else if total_searches (frequency_tracker self) = 0 then Inl ZeroDivisionError
      else
        (let frequency = real_of_int count / real_of_int (total_searches (frequency_tracker self))
         in suspected_loop self confirmed min_suspicion rest
              (if min_suspicion \<le> frequency
               then suspected @
                      [\<lparr>sus_domain = domain, sus_count = count, sus_frequency = frequency,
                        sus_companies =
                          dict_get (company_domains (frequency_tracker self)) domain {}\<rparr>]
               else suspected)))"

text \<open>
  \<open>EnhancedBlocklistFilter.get_suspected_aggregators\<close>. \<open>sort(key=..., reverse=True)\<close> is
  stable: entries of equal frequency keep their order.
\<close>

definition get_suspected_aggregators ::
  "EnhancedBlocklistFilter \<Rightarrow> real \<Rightarrow> py_error + suspect list" where
  "get_suspected_aggregators self min_suspicion =
     (let confirmed_aggregators = identify_aggregators (frequency_tracker self) 0.3 3
      in case suspected_loop self confirmed_aggregators min_suspicion
                (domain_counts (frequency_tracker self)) [] of
           Inl e \<Rightarrow> Inl e
         | Inr suspected \<Rightarrow> Inr (sort_key (\<lambda>x. - sus_frequency x) suspected))"

section \<open>URL quality analyzer (\<open>src/scoring/url_quality.py\<close>)\<close>

record URLQualityAnalyzer =
  min_quality_threshold :: real
  aggregator_keywords :: "string list"
  genuine_paths :: "string list"
  aggregator_paths :: "string list"

text \<open>\<open>URLQualityAnalyzer.__init__\<close>\<close>

definition URLQualityAnalyzer_init :: "real \<Rightarrow> URLQualityAnalyzer" where
  "URLQualityAnalyzer_init threshold =
     \<lparr>min_quality_threshold = threshold,
      aggregator_keywords =
        [''company'', ''business'', ''data'', ''check'', ''directory'',
         ''search'', ''info'', ''profile'', ''register'', ''database'',
         ''browse'', ''insight'', ''report'', ''detail'', ''find'',
         ''check'', ''verify'', ''search'', ''lookup'', ''directory''],
      genuine_paths = [''/about'', ''/company'', ''/about-us'', ''/contact'', ''/team''],
      aggregator_paths =
        [''/company/'', ''/companies/'', ''/business/'', ''/profile/'',
         ''/search/'', ''/insight/'', ''/report/'', ''/detail.php'',
         ''/browse/'', ''/company-profiles'', ''/directory/'',
         ''/company_number'', ''/companyname'', ''/comp/'']\<rparr>"

text \<open>
  \<open>re.compile(r'[A-Z][a-z]+|[a-z]+').findall\<close>: from left to right, a capital followed
  by lower-case letters or a run of lower-case letters, each as long as possible.
\<close>

function company_word_findall :: "string \<Rightarrow> string list" where
  "company_word_findall [] = []"
| "company_word_findall (c # cs) =
     (if (is_upper c \<and> cs \<noteq> [] \<and> is_lower (hd cs)) \<or> is_lower c
      then (c # takeWhile is_lower cs) # company_word_findall (dropWhile is_lower cs)
      else company_word_findall cs)"
  by pat_completeness auto
termination
  by (relation "measure length") (auto simp: length_dropWhile_le less_Suc_eq_le)

text \<open>The loop over the keywords in \<open>_analyze_domain\<close>\<close>

fun keyword_penalty :: "string list \<Rightarrow> string \<Rightarrow> real \<Rightarrow> real" where
  "keyword_penalty [] domain score = score"
| "keyword_penalty (keyword # rest) domain score =
     keyword_penalty rest domain (if contains (lower domain) keyword then score - 20.0 else score)"

text \<open>\<open>URLQualityAnalyzer._analyze_domain\<close>\<close>

definition analyze_domain :: "URLQualityAnalyzer \<Rightarrow> string \<Rightarrow> string \<Rightarrow> real" where
  "analyze_domain self name domain =
     (let company_words = company_word_findall (lower name);
          domain_words = company_word_findall (lower domain);
          name_match = list_ex (\<lambda>w. contains (lower domain) w) company_words;
          score1 = (if \<not> name_match then 100.0 - 50.0 else 100.0);
          score2 = keyword_penalty (aggregator_keywords self) domain score1;
          score3 = (if startswith (lower domain) (filter (\<lambda>c. c \<noteq> CHR '' '') (lower name))
                    then score2 + 10.0
                    else if list_ex (\<lambda>w. contains (lower domain) w) company_words
                      then score2 + 5.0
                    else score2)
      in max 0.0 (min 100.0 score3))"

section \<open>Auxiliary notions for the properties\<close>

text \<open>The domains that one call of \<open>track_search_results\<close> can count: those of the URLs that parse.\<close>

definition result_domains :: "SearchResult list \<Rightarrow> string list" where
  "result_domains rs =
     concat (map (\<lambda>r. case extract_domain (url r) of Inl e \<Rightarrow> [] | Inr d \<Rightarrow> [d]) rs)"

text \<open>
  The tracker states reached from a fresh tracker by calls of \<open>track_search_results\<close> in
  which no two results of one call have the same domain.
\<close>

inductive tracked_distinct :: "DomainFrequencyTracker \<Rightarrow> bool" where
  fresh: "tracked_distinct DomainFrequencyTracker_init"
| track: "tracked_distinct s \<Longrightarrow> distinct (result_domains rs)
            \<Longrightarrow> tracked_distinct (snd (track_search_results s name rs))"

text \<open>
  The domain analysis in the words of the specification, to compare with
  \<open>analyze_domain\<close>: 20 points for each keyword that occurs in the domain, a keyword
  counted once.
\<close>

definition analyze_domain_spec :: "URLQualityAnalyzer \<Rightarrow> string \<Rightarrow> string \<Rightarrow> real" where
  "analyze_domain_spec self name domain =
     (let tokens = company_word_findall (lower name);
          token_found = list_ex (\<lambda>w. contains (lower domain) w) tokens;
          found_keywords = filter (\<lambda>k. contains (lower domain) k) (remdups (aggregator_keywords self));
          score = 100 - (if token_found then 0 else 50) - 20 * real (length found_keywords)
                    + (if startswith (lower domain) (filter (\<lambda>c. c \<noteq> CHR '' '') (lower name)) then 10
                       else if token_found then 5 else 0)
      in max 0 (min 100 score))"

text \<open>The company and the two candidates of the scenarios of the specification.\<close>

definition acme_company :: Company where
  "acme_company =
     \<lparr>company_number = ''12345678'', company_name = ''ACME SOFTWARE LIMITED'',
      postcode = ''SW1A 1AA'', sic_codes = None, extra_data = None\<rparr>"

definition acme_result :: SearchResult where
  "acme_result =
     \<lparr>url = ''https://acmesoftware.co.uk'', title = ''Acme Software Ltd'',
      snippet = [], position = 1\<rparr>"

definition random_result :: SearchResult where
  "random_result =
     \<lparr>url = ''https://random-website.com/acme'', title = ''Some random page mentioning Acme'',
      snippet = [], position = 10\<rparr>"

text \<open>
  The entry that \<open>get_suspected_aggregators\<close> builds for an item of \<open>domain_counts\<close>,
  and the test that decides whether the item is reported.
\<close>

definition mk_suspect :: "EnhancedBlocklistFilter \<Rightarrow> string \<times> int \<Rightarrow> suspect" where
  "mk_suspect self = (\<lambda>(d, c). \<lparr>sus_domain = d, sus_count = c,
       sus_frequency = real_of_int c / real_of_int (total_searches (frequency_tracker self)),
       sus_companies = dict_get (company_domains (frequency_tracker self)) d {}\<rparr>)"

definition keep_suspect :: "EnhancedBlocklistFilter \<Rightarrow> string set \<Rightarrow> real \<Rightarrow> string \<times> int \<Rightarrow> bool" where
  "keep_suspect self C ms = (\<lambda>(d, c). d \<notin> set (static_blocklist self) \<and> d \<notin> C
     \<and> ms \<le> real_of_int c / real_of_int (total_searches (frequency_tracker self)))"

text \<open>A weight dictionary as the scorer expects it: the four signal names, no negative weight.\<close>

definition weights_ok :: "(string \<times> real) list \<Rightarrow> bool" where
  "weights_ok ws = (distinct (map fst ws) \<and> (\<forall>p\<in>set ws. 0 \<le> snd p)
     \<and> {''domain_match'', ''tld_relevance'', ''search_position'', ''title_match''} \<subseteq> fst ` set ws)"

section \<open>Weight normalisation\<close>

lemma sum_values_scaled:
  "sum_values (map (\<lambda>(k, v). (k, v / t)) ws) = sum_values ws / t"
  by (induction ws) (auto simp: sum_values_def add_divide_distrib)

lemma sum_values_default: "sum_values default_weights = 1"
  by (simp add: sum_values_def default_weights_def)

text \<open>
  Claim C5, as stated, fails: the all-zero mapping is not empty, its sum is not positive,
  so the constructor leaves it as it is and the stored weights sum to 0.
\<close>

theorem weights_sum_zero_counterexample:
  "sum_values (weights (ConfidenceScorer_init
      (Some [(''domain_match'', 0), (''tld_relevance'', 0),
             (''search_position'', 0), (''title_match'', 0)]))) = 0"
  by (simp add: ConfidenceScorer_init_def sum_values_def)

text \<open>
  Claim C5, amended: when no mapping or the empty mapping is given (the defaults are taken)
  or the given weights have a positive sum, the stored weights sum to 1; a non-empty
  mapping whose sum is not positive is stored unchanged.
\<close>

theorem weights_normalized:
  "(ws_opt = None \<or> ws_opt = Some [] \<or> (\<exists>ws. ws_opt = Some ws \<and> 0 < sum_values ws)
      \<longrightarrow> sum_values (weights (ConfidenceScorer_init ws_opt)) = 1)
   \<and> (ws \<noteq> [] \<and> sum_values ws \<le> 0 \<longrightarrow> weights (ConfidenceScorer_init (Some ws)) = ws)"
proof (intro conjI impI)
  assume h: "ws_opt = None \<or> ws_opt = Some [] \<or> (\<exists>ws. ws_opt = Some ws \<and> 0 < sum_values ws)"
  then consider "ws_opt = None \<or> ws_opt = Some []"
    | ws' where "ws_opt = Some ws'" "ws' \<noteq> []" "0 < sum_values ws'"
    by (cases ws_opt) auto
  then show "sum_values (weights (ConfidenceScorer_init ws_opt)) = 1"
  proof cases
    case 1
    then show ?thesis
      by (auto simp: ConfidenceScorer_init_def Let_def sum_values_default sum_values_scaled)
  next
    case 2
    then show ?thesis
      by (simp add: ConfidenceScorer_init_def Let_def sum_values_scaled)
  qed
next
  assume "ws \<noteq> [] \<and> sum_values ws \<le> 0"
  then show "weights (ConfidenceScorer_init (Some ws)) = ws"
    by (simp add: ConfidenceScorer_init_def Let_def)
qed

theorem weights_normalized_witness:
  "sum_values (weights (ConfidenceScorer_init
      (Some [(''domain_match'', 2), (''tld_relevance'', 1),
             (''search_position'', 1), (''title_match'', 1)]))) = 1
   \<and> weights (ConfidenceScorer_init (Some [(''domain_match'', 0)])) = [(''domain_match'', 0)]"
proof -
  have a: "0 < sum_values [(''domain_match'', 2), (''tld_relevance'', 1),
             (''search_position'', 1), (''title_match'', 1)]"
    by (simp add: sum_values_def)
  have b: "[(''domain_match'', 0::real)] \<noteq> [] \<and> sum_values [(''domain_match'', 0)] \<le> 0"
    by (simp add: sum_values_def)
  show ?thesis
    using weights_normalized [of "Some [(''domain_match'', 2), (''tld_relevance'', 1),
             (''search_position'', 1), (''title_match'', 1)]" "[(''domain_match'', 0)]"] a b
    by blast
qed

section \<open>Static blocklist matching\<close>

lemma blocked_by_iff:
  "blocked_by d bl \<longleftrightarrow> (\<exists>b\<in>set bl. d = b \<or> endswith d (''.'' @ b))"
  by (induction bl) auto

lemma is_space_lower_char: "is_space (lower_char c) = is_space c"
  by (auto simp: lower_char_def is_space_def is_upper_def)

lemma strip_eq_Nil: "strip s = [] \<longleftrightarrow> (\<forall>c\<in>set s. is_space c)"
proof -
  have mid: "(\<forall>c\<in>set (dropWhile is_space s). is_space c) \<longleftrightarrow> dropWhile is_space s = []"
  proof
    assume a: "\<forall>c\<in>set (dropWhile is_space s). is_space c"
    show "dropWhile is_space s = []"
    proof (rule ccontr)
      assume n: "dropWhile is_space s \<noteq> []"
      then have "\<not> is_space (hd (dropWhile is_space s))" by (rule hd_dropWhile)
      moreover from n have "hd (dropWhile is_space s) \<in> set (dropWhile is_space s)" by simp
      ultimately show False using a by blast
    qed
  next
    assume "dropWhile is_space s = []"
    then show "\<forall>c\<in>set (dropWhile is_space s). is_space c"
      by (metis empty_iff empty_set)
  qed
  have "strip s = [] \<longleftrightarrow> (\<forall>c\<in>set (dropWhile is_space s). is_space c)"
    by (simp add: strip_def dropWhile_eq_Nil_conv)
  also have "\<dots> \<longleftrightarrow> dropWhile is_space s = []"
    by (rule mid)
  also have "\<dots> \<longleftrightarrow> (\<forall>c\<in>set s. is_space c)"
    by (simp only: dropWhile_eq_Nil_conv)
  finally show ?thesis .
qed

lemma strip_lower_eq_Nil: "strip (lower s) = [] \<longleftrightarrow> strip s = []"
  by (simp add: strip_eq_Nil lower_def is_space_lower_char)

lemma blocklist_init_lower:
  "blocklist (BlocklistFilter_init bl) = map strip (filter (\<lambda>x. strip x \<noteq> []) (map lower bl))"
  by (simp add: BlocklistFilter_init_def filter_map comp_def strip_lower_eq_Nil)


text \<open>
  Claim C7: \<open>filter_results\<close> keeps exactly the candidates whose domain (network location,
  lower-cased, without a leading \<open>www.\<close>) neither equals nor ends with a dot and a
  blocklist entry, the entry trimmed and lower-cased and blank entries ignored; blocklists
  that differ only in case filter alike, URLs whose network locations differ only in case
  are blocked alike, a candidate with an empty URL or one that \<open>urlparse\<close> rejects is kept,
  and the examples of the specification behave as it says.
\<close>

theorem blocklist_filter_exact:
  "filter_results (BlocklistFilter_init bl) rs =
     filter (\<lambda>r. \<not> (url r \<noteq> [] \<and>
        (\<exists>p. urlparse (url r) = Inr p \<and>
           (\<exists>e\<in>set bl. strip e \<noteq> [] \<and>
              (blocklist_domain p = strip (lower e)
               \<or> endswith (blocklist_domain p) (''.'' @ strip (lower e))))))) rs
   \<and> (map lower bl = map lower bl'
        \<longrightarrow> filter_results (BlocklistFilter_init bl) rs = filter_results (BlocklistFilter_init bl') rs)
   \<and> (u \<noteq> [] \<and> u' \<noteq> [] \<and> urlparse u = Inr p \<and> urlparse u' = Inr p'
          \<and> lower (netloc p) = lower (netloc p')
        \<longrightarrow> is_blocked (BlocklistFilter_init bl) u = is_blocked (BlocklistFilter_init bl) u')
   \<and> (r \<in> set rs \<and> (url r = [] \<or> (\<exists>e. urlparse (url r) = Inl e))
        \<longrightarrow> r \<in> set (filter_results (BlocklistFilter_init bl) rs))
   \<and> is_blocked (BlocklistFilter_init [''BLOCKED.CO.UK'']) ''https://api.blocked.co.uk''
   \<and> is_blocked (BlocklistFilter_init [''blocked.co.uk'']) ''https://API.Blocked.CO.UK''
   \<and> \<not> is_blocked (BlocklistFilter_init [''BLOCKED.CO.UK'']) ''https://notblocked.co.uk''
   \<and> \<not> is_blocked (BlocklistFilter_init [''blocked.co.uk'']) ''https://notblocked.co.uk''"
proof (intro conjI impI)
  have blocked: "is_blocked (BlocklistFilter_init bl) v \<longleftrightarrow>
      (v \<noteq> [] \<and> (\<exists>p. urlparse v = Inr p \<and>
           (\<exists>e\<in>set bl. strip e \<noteq> [] \<and>
              (blocklist_domain p = strip (lower e)
               \<or> endswith (blocklist_domain p) (''.'' @ strip (lower e))))))" for v
    by (cases "urlparse v")
       (auto simp: is_blocked_def blocked_by_iff BlocklistFilter_init_def)
  show "filter_results (BlocklistFilter_init bl) rs =
     filter (\<lambda>r. \<not> (url r \<noteq> [] \<and>
        (\<exists>p. urlparse (url r) = Inr p \<and>
           (\<exists>e\<in>set bl. strip e \<noteq> [] \<and>
              (blocklist_domain p = strip (lower e)
               \<or> endswith (blocklist_domain p) (''.'' @ strip (lower e))))))) rs"
    by (cases "rs = []") (simp_all add: filter_results_def blocked)
next
  assume "map lower bl = map lower bl'"
  then have "BlocklistFilter_init bl = BlocklistFilter_init bl'"
    using blocklist_init_lower [of bl] blocklist_init_lower [of bl'] by simp
  then show "filter_results (BlocklistFilter_init bl) rs = filter_results (BlocklistFilter_init bl') rs"
    by simp
next
  assume "u \<noteq> [] \<and> u' \<noteq> [] \<and> urlparse u = Inr p \<and> urlparse u' = Inr p'
          \<and> lower (netloc p) = lower (netloc p')"
  then show "is_blocked (BlocklistFilter_init bl) u = is_blocked (BlocklistFilter_init bl) u'"
    by (simp add: is_blocked_def blocklist_domain_def)
next
  assume "r \<in> set rs \<and> (url r = [] \<or> (\<exists>e. urlparse (url r) = Inl e))"
  then show "r \<in> set (filter_results (BlocklistFilter_init bl) rs)"
    by (auto simp: filter_results_def is_blocked_def)
next
  show "is_blocked (BlocklistFilter_init [''BLOCKED.CO.UK'']) ''https://api.blocked.co.uk''"
    by code_simp
next
  show "is_blocked (BlocklistFilter_init [''blocked.co.uk'']) ''https://API.Blocked.CO.UK''"
    by code_simp
next
  show "\<not> is_blocked (BlocklistFilter_init [''BLOCKED.CO.UK'']) ''https://notblocked.co.uk''"
    by code_simp
next
  show "\<not> is_blocked (BlocklistFilter_init [''blocked.co.uk'']) ''https://notblocked.co.uk''"
    by code_simp
qed


theorem blocklist_filter_exact_witness:
  "filter_results (BlocklistFilter_init [''BLOCKED.CO.UK''])
       [\<lparr>url = [], title = ''t'', snippet = [], position = 1\<rparr>,
        \<lparr>url = ''https://api.blocked.co.uk/x'', title = ''t'', snippet = [], position = 2\<rparr>]
     = filter_results (BlocklistFilter_init [''blocked.co.uk''])
       [\<lparr>url = [], title = ''t'', snippet = [], position = 1\<rparr>,
        \<lparr>url = ''https://api.blocked.co.uk/x'', title = ''t'', snippet = [], position = 2\<rparr>]
   \<and> is_blocked (BlocklistFilter_init [''BLOCKED.CO.UK'']) ''https://API.Blocked.CO.UK/x''
       = is_blocked (BlocklistFilter_init [''BLOCKED.CO.UK'']) ''https://api.blocked.co.uk/y''
   \<and> \<lparr>url = [], title = ''t'', snippet = [], position = 1\<rparr>
       \<in> set (filter_results (BlocklistFilter_init [''BLOCKED.CO.UK''])
       [\<lparr>url = [], title = ''t'', snippet = [], position = 1\<rparr>,
        \<lparr>url = ''https://api.blocked.co.uk/x'', title = ''t'', snippet = [], position = 2\<rparr>])"
proof -
  have h1: "map lower [''BLOCKED.CO.UK''] = map lower [''blocked.co.uk'']"
    by code_simp
  have h2: "''https://API.Blocked.CO.UK/x'' \<noteq> [] \<and> ''https://api.blocked.co.uk/y'' \<noteq> []
      \<and> urlparse ''https://API.Blocked.CO.UK/x''
          = Inr \<lparr>scheme = ''https'', netloc = ''API.Blocked.CO.UK'', path = ''/x'',
                  query = [], fragment = []\<rparr>
      \<and> urlparse ''https://api.blocked.co.uk/y''
          = Inr \<lparr>scheme = ''https'', netloc = ''api.blocked.co.uk'', path = ''/y'',
                  query = [], fragment = []\<rparr>
      \<and> lower (netloc \<lparr>scheme = ''https'', netloc = ''API.Blocked.CO.UK'', path = ''/x'',
                  query = [], fragment = []\<rparr>)
          = lower (netloc \<lparr>scheme = ''https'', netloc = ''api.blocked.co.uk'', path = ''/y'',
                  query = [], fragment = []\<rparr>)"
    by code_simp
  have h3: "\<lparr>url = [], title = ''t'', snippet = [], position = 1\<rparr>
       \<in> set [\<lparr>url = [], title = ''t'', snippet = [], position = 1\<rparr>,
        \<lparr>url = ''https://api.blocked.co.uk/x'', title = ''t'', snippet = [], position = 2\<rparr>]
      \<and> (url \<lparr>url = [], title = ''t'', snippet = [], position = 1\<rparr> = []
           \<or> (\<exists>e. urlparse (url \<lparr>url = [], title = ''t'', snippet = [], position = 1\<rparr>) = Inl e))"
    by simp
  show ?thesis
    using blocklist_filter_exact
      [of "[''BLOCKED.CO.UK'']"
          "[\<lparr>url = [], title = ''t'', snippet = [], position = 1\<rparr>,
            \<lparr>url = ''https://api.blocked.co.uk/x'', title = ''t'', snippet = [], position = 2\<rparr>]"
          "[''blocked.co.uk'']"
          "''https://API.Blocked.CO.UK/x''" "''https://api.blocked.co.uk/y''"
          "\<lparr>scheme = ''https'', netloc = ''API.Blocked.CO.UK'', path = ''/x'',
                  query = [], fragment = []\<rparr>"
          "\<lparr>scheme = ''https'', netloc = ''api.blocked.co.uk'', path = ''/y'',
                  query = [], fragment = []\<rparr>"
          "\<lparr>url = [], title = ''t'', snippet = [], position = 1\<rparr>"]
      h1 h2 h3
    by blast
qed

section \<open>Aggregator identification\<close>

lemma fold_insert_if:
  "d \<in> fold (\<lambda>(k, c) A. if P c then insert k A else A) items A0
   \<longleftrightarrow> d \<in> A0 \<or> (\<exists>c. (d, c) \<in> set items \<and> P c)"
  by (induction items arbitrary: A0) (auto split: if_splits)

lemma dict_get_distinct:
  "distinct (map fst d) \<Longrightarrow> (k, v) \<in> set d \<Longrightarrow> dict_get d k dflt = v"
  by (simp add: dict_get_def)

text \<open>
  Claim C3: in a tracker whose total search count is positive, \<open>identify_aggregators\<close>
  returns exactly the tracked domains whose count is at least \<open>m\<close> and whose frequency
  is at least \<open>t\<close>; with a total of 0 the frequency is 0 and the call returns the empty
  set.
\<close>

theorem identify_aggregators_exact:
  assumes "distinct (map fst (domain_counts s))"
  shows "(0 < total_searches s \<longrightarrow>
            identify_aggregators s t m =
              {d \<in> fst ` set (domain_counts s).
                 m \<le> dict_get (domain_counts s) d 0 \<and> t \<le> domain_frequency s d})
         \<and> (total_searches s = 0 \<longrightarrow>
               identify_aggregators s t m = {} \<and> domain_frequency s d = 0)"
proof (intro conjI impI)
  assume pos: "0 < total_searches s"
  show "identify_aggregators s t m =
              {d \<in> fst ` set (domain_counts s).
                 m \<le> dict_get (domain_counts s) d 0 \<and> t \<le> domain_frequency s d}"
  proof (rule set_eqI)
    fix x
    have "x \<in> identify_aggregators s t m \<longleftrightarrow>
            (\<exists>c. (x, c) \<in> set (domain_counts s) \<and> m \<le> c
                  \<and> t \<le> real_of_int c / real_of_int (total_searches s))"
      using pos by (simp add: identify_aggregators_def Let_def fold_insert_if)
    also have "\<dots> \<longleftrightarrow> x \<in> fst ` set (domain_counts s)
        \<and> m \<le> dict_get (domain_counts s) x 0 \<and> t \<le> domain_frequency s x"
      using pos assms by (force simp: domain_frequency_def Let_def dict_get_distinct)
    finally show "x \<in> identify_aggregators s t m \<longleftrightarrow>
       x \<in> {d \<in> fst ` set (domain_counts s).
                 m \<le> dict_get (domain_counts s) d 0 \<and> t \<le> domain_frequency s d}"
      by simp
  qed
next
  assume "total_searches s = 0"
  then show "identify_aggregators s t m = {}" by (simp add: identify_aggregators_def)
next
  assume "total_searches s = 0"
  then show "domain_frequency s d = 0" by (simp add: domain_frequency_def)
qed

theorem identify_aggregators_exact_witness:
  "identify_aggregators
      \<lparr>domain_counts = [(''companycheck.co.uk'', 3), (''acmesoftware.co.uk'', 1)],
       company_domains = [], total_searches = 5\<rparr> 0.3 3
     = {d \<in> fst ` set [(''companycheck.co.uk'', 3), (''acmesoftware.co.uk'', 1::int)].
          3 \<le> dict_get [(''companycheck.co.uk'', 3), (''acmesoftware.co.uk'', 1::int)] d 0
          \<and> 0.3 \<le> domain_frequency
                \<lparr>domain_counts = [(''companycheck.co.uk'', 3), (''acmesoftware.co.uk'', 1)],
                 company_domains = [], total_searches = 5\<rparr> d}
   \<and> identify_aggregators
      \<lparr>domain_counts = [(''companycheck.co.uk'', 3), (''acmesoftware.co.uk'', 1)],
       company_domains = [], total_searches = 5\<rparr> 0.3 3 = {''companycheck.co.uk''}
   \<and> identify_aggregators DomainFrequencyTracker_init 0.3 3 = {}
   \<and> domain_frequency DomainFrequencyTracker_init ''companycheck.co.uk'' = 0"
proof -
  have d1: "distinct (map fst (domain_counts
      \<lparr>domain_counts = [(''companycheck.co.uk'', 3), (''acmesoftware.co.uk'', 1)],
       company_domains = [], total_searches = 5\<rparr>))"
    by simp
  have p1: "0 < total_searches
      \<lparr>domain_counts = [(''companycheck.co.uk'', 3), (''acmesoftware.co.uk'', 1)],
       company_domains = [], total_searches = 5\<rparr>"
    by simp
  have d0: "distinct (map fst (domain_counts DomainFrequencyTracker_init))"
    by (simp add: DomainFrequencyTracker_init_def)
  have z0: "total_searches DomainFrequencyTracker_init = 0"
    by (simp add: DomainFrequencyTracker_init_def)
  have e: "identify_aggregators
      \<lparr>domain_counts = [(''companycheck.co.uk'', 3), (''acmesoftware.co.uk'', 1)],
       company_domains = [], total_searches = 5\<rparr> 0.3 3 = {''companycheck.co.uk''}"
    by code_simp
  show ?thesis
    using identify_aggregators_exact [OF d1, of "0.3" 3] p1
      identify_aggregators_exact [OF d0, of "0.3" 3 "''companycheck.co.uk''"] z0 e
    by simp
qed

section \<open>Occurrence counts and the number of searches\<close>

text \<open>
  Claim C6, as stated, fails: one search whose two results lie on the same domain counts
  that domain twice and the search once.
\<close>

theorem count_exceeds_total_counterexample:
  "\<not> dict_get (domain_counts (snd (track_search_results DomainFrequencyTracker_init
          ''ACME SOFTWARE LIMITED''
          [\<lparr>url = ''https://acmesoftware.co.uk/about'', title = ''About'', snippet = [],
             position = 1\<rparr>,
           \<lparr>url = ''https://acmesoftware.co.uk/contact'', title = ''Contact'', snippet = [],
             position = 2\<rparr>]))) ''acmesoftware.co.uk'' 0
      \<le> total_searches (snd (track_search_results DomainFrequencyTracker_init
          ''ACME SOFTWARE LIMITED''
          [\<lparr>url = ''https://acmesoftware.co.uk/about'', title = ''About'', snippet = [],
             position = 1\<rparr>,
           \<lparr>url = ''https://acmesoftware.co.uk/contact'', title = ''Contact'', snippet = [],
             position = 2\<rparr>]))"
  by code_simp

lemma dict_get_update:
  "dict_get (AList.update k v d) k' dflt = (if k' = k then v else dict_get d k' dflt)"
  by (simp add: dict_get_def update_conv')

lemma track_loop_counts:
  "track_loop name s rs = (res, s') \<Longrightarrow> distinct (result_domains rs) \<Longrightarrow>
     total_searches s' = total_searches s
     \<and> dict_get (domain_counts s') d 0
         \<le> dict_get (domain_counts s) d 0 + (if d \<in> set (result_domains rs) then 1 else 0)"
proof (induction rs arbitrary: s)
  case Nil
  then show ?case by simp
next
  case (Cons r rs)
  show ?case
  proof (cases "extract_domain (url r)")
    case (Inl e)
    with Cons.prems show ?thesis by simp
  next
    case (Inr dom)
    let ?s1 = "s\<lparr>domain_counts :=
                    AList.update dom (dict_get (domain_counts s) dom 0 + 1) (domain_counts s),
                  company_domains :=
                    AList.update dom (insert name (dict_get (company_domains s) dom {}))
                      (company_domains s)\<rparr>"
    from Cons.prems Inr have loop: "track_loop name ?s1 rs = (res, s')" by simp
    from Cons.prems Inr have dist: "distinct (result_domains rs)" and
      notin: "dom \<notin> set (result_domains rs)"
      by (simp_all add: result_domains_def)
    from Cons.IH [OF loop dist] have
      ih: "total_searches s' = total_searches ?s1"
          "dict_get (domain_counts s') d 0
            \<le> dict_get (domain_counts ?s1) d 0 + (if d \<in> set (result_domains rs) then 1 else 0)"
      by simp_all
    have doms: "set (result_domains (r # rs)) = insert dom (set (result_domains rs))"
      using Inr by (simp add: result_domains_def)
    show ?thesis
    proof (cases "d = dom")
      case True
      with ih notin doms show ?thesis by (simp add: dict_get_update)
    next
      case False
      with ih doms show ?thesis by (simp add: dict_get_update)
    qed
  qed
qed

text \<open>
  Claim C6, amended: in every state reached from a fresh tracker by calls of
  \<open>track_search_results\<close> in each of which the results have pairwise different domains,
  every domain's count is at most the total search count, and its frequency at most 1.
\<close>

theorem count_le_total_when_distinct:
  "tracked_distinct s \<Longrightarrow>
     dict_get (domain_counts s) d 0 \<le> total_searches s \<and> domain_frequency s d \<le> 1"
proof -
  assume t: "tracked_distinct s"
  from t have inv: "0 \<le> total_searches s \<and> (\<forall>d. dict_get (domain_counts s) d 0 \<le> total_searches s)"
  proof (induction rule: tracked_distinct.induct)
    case fresh
    then show ?case by (simp add: DomainFrequencyTracker_init_def dict_get_def)
  next
    case (track s rs name)
    obtain res s' where
      l: "track_loop name (s\<lparr>total_searches := total_searches s + 1\<rparr>) rs = (res, s')"
      by (cases "track_loop name (s\<lparr>total_searches := total_searches s + 1\<rparr>) rs")
    have eq: "snd (track_search_results s name rs) = s'"
      using l by (simp add: track_search_results_def)
    have "total_searches s' = total_searches s + 1
          \<and> (\<forall>d. dict_get (domain_counts s') d 0 \<le> dict_get (domain_counts s) d 0 + 1)"
    proof (intro conjI allI)
      show "total_searches s' = total_searches s + 1"
        using track_loop_counts [OF l track.hyps(2)] by simp
    next
      fix d
      show "dict_get (domain_counts s') d 0 \<le> dict_get (domain_counts s) d 0 + 1"
        using track_loop_counts [OF l track.hyps(2), of d] by (simp split: if_splits)
    qed
    with track.IH eq show ?case by (metis add_mono_thms_linordered_semiring(1) add.commute add_increasing2 zero_le_one order_trans add_le_cancel_right)
  qed
  show ?thesis
  proof
    show "dict_get (domain_counts s) d 0 \<le> total_searches s" using inv by blast
  next
    show "domain_frequency s d \<le> 1"
      using inv by (auto simp: domain_frequency_def Let_def)
  qed
qed


theorem count_le_total_when_distinct_witness:
  "tracked_distinct (snd (track_search_results DomainFrequencyTracker_init
       ''ACME SOFTWARE LIMITED'' [acme_result, random_result]))
   \<and> dict_get (domain_counts (snd (track_search_results DomainFrequencyTracker_init
       ''ACME SOFTWARE LIMITED'' [acme_result, random_result]))) ''acmesoftware.co.uk'' 0
       \<le> total_searches (snd (track_search_results DomainFrequencyTracker_init
       ''ACME SOFTWARE LIMITED'' [acme_result, random_result]))
   \<and> domain_frequency (snd (track_search_results DomainFrequencyTracker_init
       ''ACME SOFTWARE LIMITED'' [acme_result, random_result])) ''acmesoftware.co.uk'' \<le> 1"
proof -
  have d: "distinct (result_domains [acme_result, random_result])"
    by code_simp
  have t: "tracked_distinct (snd (track_search_results DomainFrequencyTracker_init
       ''ACME SOFTWARE LIMITED'' [acme_result, random_result]))"
    by (rule tracked_distinct.track [OF tracked_distinct.fresh d])
  show ?thesis
    using count_le_total_when_distinct [OF t, of "''acmesoftware.co.uk''"] t by simp
qed

section \<open>Suspected aggregators\<close>

text \<open>
  Claim C8, as stated, fails: after one search with one result the domain has frequency 1
  and a single occurrence; it is not a confirmed aggregator, and it is reported although
  its frequency is not below the aggregator threshold 0.3.
\<close>

theorem suspected_frequency_counterexample:
  "get_suspected_aggregators
      \<lparr>static_blocklist = [],
       frequency_tracker = snd (track_search_results DomainFrequencyTracker_init
          ''ACME SOFTWARE LIMITED'' [acme_result])\<rparr> 0.1
     = Inr [\<lparr>sus_domain = ''acmesoftware.co.uk'', sus_count = 1, sus_frequency = 1,
             sus_companies = {''ACME SOFTWARE LIMITED''}\<rparr>]
   \<and> \<not> sus_frequency \<lparr>sus_domain = ''acmesoftware.co.uk'', sus_count = 1, sus_frequency = 1,
             sus_companies = {''ACME SOFTWARE LIMITED''}\<rparr> < 0.3"
  by code_simp

lemma suspected_loop_filter:
  assumes "total_searches (frequency_tracker self) \<noteq> 0"
  shows "suspected_loop self C ms items acc =
           Inr (acc @ map (mk_suspect self) (filter (keep_suspect self C ms) items))"
proof (induction items arbitrary: acc)
  case Nil
  show ?case by simp
next
  case (Cons p items)
  obtain d c where p: "p = (d, c)" by (cases p)
  show ?case
  proof (cases "d \<in> set (static_blocklist self) \<or> d \<in> C")
    case True
    then show ?thesis
      using Cons.IH [of acc] p by (auto simp: keep_suspect_def)
  next
    case False
    show ?thesis
    proof (cases "ms \<le> real_of_int c / real_of_int (total_searches (frequency_tracker self))")
      case True
      with False assms p show ?thesis
        using Cons.IH [of "acc @ [mk_suspect self (d, c)]"]
        by (simp add: keep_suspect_def mk_suspect_def Let_def)
    next
      case nk: False
      with False assms p show ?thesis
        using Cons.IH [of acc]
        by (simp add: keep_suspect_def Let_def)
    qed
  qed
qed

lemma suspected_loop_empty:
  "suspected_loop self C ms [] acc = Inr acc"
  by simp

text \<open>
  Claim C8, amended: with a positive total search count, \<open>get_suspected_aggregators\<close>
  returns one entry for each tracked domain that is outside the static blocklist, is not
  returned by \<open>identify_aggregators\<close> with its defaults (threshold 0.3, at least 3
  occurrences) and has a frequency of at least \<open>min_suspicion\<close>; each entry carries the
  domain's count and frequency, and the list is in descending order of frequency.
\<close>

theorem suspected_aggregators_exact:
  assumes "0 < total_searches (frequency_tracker self)"
    and "distinct (map fst (domain_counts (frequency_tracker self)))"
  shows "\<exists>xs. get_suspected_aggregators self ms = Inr xs
     \<and> set (map sus_domain xs) =
         {d \<in> fst ` set (domain_counts (frequency_tracker self)).
            d \<notin> set (static_blocklist self)
            \<and> d \<notin> identify_aggregators (frequency_tracker self) 0.3 3
            \<and> ms \<le> domain_frequency (frequency_tracker self) d}
     \<and> distinct (map sus_domain xs)
     \<and> (\<forall>x\<in>set xs.
            sus_count x = dict_get (domain_counts (frequency_tracker self)) (sus_domain x) 0
            \<and> sus_frequency x = domain_frequency (frequency_tracker self) (sus_domain x))
     \<and> sorted_wrt (\<lambda>a b. sus_frequency b \<le> sus_frequency a) xs"
proof -
  let ?tr = "frequency_tracker self"
  let ?C = "identify_aggregators ?tr 0.3 3"
  let ?items = "domain_counts ?tr"
  let ?kept = "filter (keep_suspect self ?C ms) ?items"
  let ?xs = "sort_key (\<lambda>x. - sus_frequency x) (map (mk_suspect self) ?kept)"
  from assms(1) have nz: "total_searches ?tr \<noteq> 0" by simp
  have res: "get_suspected_aggregators self ms = Inr ?xs"
    by (simp add: get_suspected_aggregators_def Let_def suspected_loop_filter [OF nz])
  have dom_mk: "map sus_domain (map (mk_suspect self) ys) = map fst ys" for ys
    by (induction ys) (auto simp: mk_suspect_def)
  have freq: "(d, c) \<in> set ?items \<Longrightarrow>
      real_of_int c / real_of_int (total_searches ?tr) = domain_frequency ?tr d
      \<and> dict_get ?items d 0 = c" for d c
    using assms by (simp add: domain_frequency_def Let_def dict_get_distinct)
  have set_dom: "set (map sus_domain ?xs) = fst ` set ?kept"
  proof -
    have "set (map sus_domain ?xs) = sus_domain ` set (map (mk_suspect self) ?kept)"
      by simp
    also have "\<dots> = set (map sus_domain (map (mk_suspect self) ?kept))"
      by (simp only: set_map)
    also have "\<dots> = fst ` set ?kept"
      by (simp only: dom_mk set_map)
    finally show ?thesis .
  qed
  have kept_char: "fst ` set ?kept =
         {d \<in> fst ` set ?items.
            d \<notin> set (static_blocklist self) \<and> d \<notin> ?C \<and> ms \<le> domain_frequency ?tr d}"
  proof (rule set_eqI)
    fix d
    show "d \<in> fst ` set ?kept \<longleftrightarrow>
       d \<in> {d \<in> fst ` set ?items.
            d \<notin> set (static_blocklist self) \<and> d \<notin> ?C \<and> ms \<le> domain_frequency ?tr d}"
      using freq by (fastforce simp: keep_suspect_def)
  qed
  have dist: "distinct (map sus_domain ?xs)"
  proof -
    have "distinct (map fst ?kept)"
      using assms(2) by (rule distinct_map_filter)
    then have "distinct (map sus_domain (map (mk_suspect self) ?kept))"
      by (simp only: dom_mk)
    then have "distinct (map (mk_suspect self) ?kept)
               \<and> inj_on sus_domain (set (map (mk_suspect self) ?kept))"
      by (simp only: distinct_map)
    then show ?thesis
      by (simp add: distinct_map)
  qed
  have fields: "\<forall>x\<in>set ?xs.
            sus_count x = dict_get ?items (sus_domain x) 0
            \<and> sus_frequency x = domain_frequency ?tr (sus_domain x)"
    using freq by (auto simp: mk_suspect_def)
  have "sorted (map (\<lambda>x. - sus_frequency x) ?xs)"
    by (rule sorted_sort_key)
  then have srt: "sorted_wrt (\<lambda>a b. sus_frequency b \<le> sus_frequency a) ?xs"
    by (simp only: sorted_map neg_le_iff_le)
  from res set_dom kept_char dist fields srt show ?thesis
    by (intro exI [of _ ?xs]) (simp only: simp_thms)
qed


theorem suspected_aggregators_exact_witness:
  "\<exists>xs. get_suspected_aggregators
      \<lparr>static_blocklist = [''random-website.com''],
       frequency_tracker =
         \<lparr>domain_counts = [(''companycheck.co.uk'', 3), (''acmesoftware.co.uk'', 1),
                            (''random-website.com'', 2), (''other.com'', 2)],
          company_domains = [], total_searches = 5\<rparr>\<rparr> 0.1 = Inr xs
     \<and> map sus_domain xs = [''other.com'', ''acmesoftware.co.uk'']
     \<and> sorted_wrt (\<lambda>a b. sus_frequency b \<le> sus_frequency a) xs"
proof -
  have p: "0 < total_searches (frequency_tracker
      \<lparr>static_blocklist = [''random-website.com''],
       frequency_tracker =
         \<lparr>domain_counts = [(''companycheck.co.uk'', 3), (''acmesoftware.co.uk'', 1),
                            (''random-website.com'', 2), (''other.com'', 2)],
          company_domains = [], total_searches = 5\<rparr>\<rparr>)"
    by simp
  have d: "distinct (map fst (domain_counts (frequency_tracker
      \<lparr>static_blocklist = [''random-website.com''],
       frequency_tracker =
         \<lparr>domain_counts = [(''companycheck.co.uk'', 3), (''acmesoftware.co.uk'', 1),
                            (''random-website.com'', 2), (''other.com'', 2)],
          company_domains = [], total_searches = 5\<rparr>\<rparr>)))"
    by simp
  have e: "map sus_domain (projr (get_suspected_aggregators
      \<lparr>static_blocklist = [''random-website.com''],
       frequency_tracker =
         \<lparr>domain_counts = [(''companycheck.co.uk'', 3), (''acmesoftware.co.uk'', 1),
                            (''random-website.com'', 2), (''other.com'', 2)],
          company_domains = [], total_searches = 5\<rparr>\<rparr> 0.1))
       = [''other.com'', ''acmesoftware.co.uk'']"
    by code_simp
  from suspected_aggregators_exact [OF p d, of "0.1"] obtain xs where
    xs: "get_suspected_aggregators
      \<lparr>static_blocklist = [''random-website.com''],
       frequency_tracker =
         \<lparr>domain_counts = [(''companycheck.co.uk'', 3), (''acmesoftware.co.uk'', 1),
                            (''random-website.com'', 2), (''other.com'', 2)],
          company_domains = [], total_searches = 5\<rparr>\<rparr> 0.1 = Inr xs"
    and srt: "sorted_wrt (\<lambda>a b. sus_frequency b \<le> sus_frequency a) xs"
    by blast
  from xs e have m: "map sus_domain xs = [''other.com'', ''acmesoftware.co.uk'']"
    by simp
  show ?thesis
  proof (intro exI [of _ xs] conjI)
    show "get_suspected_aggregators
      \<lparr>static_blocklist = [''random-website.com''],
       frequency_tracker =
         \<lparr>domain_counts = [(''companycheck.co.uk'', 3), (''acmesoftware.co.uk'', 1),
                            (''random-website.com'', 2), (''other.com'', 2)],
          company_domains = [], total_searches = 5\<rparr>\<rparr> 0.1 = Inr xs"
      by (rule xs)
    show "map sus_domain xs = [''other.com'', ''acmesoftware.co.uk'']" by (rule m)
    show "sorted_wrt (\<lambda>a b. sus_frequency b \<le> sus_frequency a) xs" by (rule srt)
  qed
qed

section \<open>Domain analysis of the URL quality analyzer\<close>

text \<open>
  Claim C9: the keyword list holds \<open>check\<close>, \<open>search\<close> and \<open>directory\<close> twice, so a
  domain that contains \<open>check\<close> loses 40 points, not the 20 of the claim: for the company
  \<open>Acme\<close> and the domain \<open>acmecheck.com\<close> the code gives 70 where the claim gives 90.
\<close>

theorem analyze_domain_duplicate_keyword:
  "analyze_domain (URLQualityAnalyzer_init 60) ''Acme'' ''acmecheck.com'' = 70
   \<and> analyze_domain_spec (URLQualityAnalyzer_init 60) ''Acme'' ''acmecheck.com'' = 90"
  by code_simp

section \<open>Bounds of the sub-scores\<close>

lemma boost_first_word_unit:
  "0 \<le> r \<Longrightarrow> r \<le> 1 \<Longrightarrow> 0 \<le> boost_first_word d w r \<and> boost_first_word d w r \<le> 1"
  by (simp add: boost_first_word_def le_max_iff_disj min_le_iff_disj)

lemma fuzzy_match_unit:
  "0 \<le> r \<Longrightarrow> r \<le> 1 \<Longrightarrow> 0 \<le> fuzzy_match a b ws r \<and> fuzzy_match a b ws r \<le> 1"
  by (simp add: fuzzy_match_def le_max_iff_disj)

lemma prefix_match_unit:
  "0 \<le> r \<Longrightarrow> r \<le> 1 \<Longrightarrow> 0 \<le> prefix_match a b r \<and> prefix_match a b r \<le> 1"
  by (simp add: prefix_match_def Let_def le_max_iff_disj)

lemma hyphen_match_unit:
  "0 \<le> r \<Longrightarrow> r \<le> 1 \<Longrightarrow> 0 \<le> hyphen_match a b r \<and> hyphen_match a b r \<le> 1"
  by (simp add: hyphen_match_def Let_def le_max_iff_disj)

lemma hyphen_match_empty:
  "a = [] \<or> b = [] \<Longrightarrow> 0.95 \<le> hyphen_match a b r"
  by (auto simp: hyphen_match_def contains_def le_max_iff_disj)

lemma acronym_match_unit:
  "0 \<le> r \<Longrightarrow> r \<le> 1 \<Longrightarrow> 0 \<le> acronym_match a b r \<and> acronym_match a b r \<le> 1"
  by (simp add: acronym_match_def le_max_iff_disj)

lemma acronym_match_ge: "r \<le> acronym_match a b r"
  by (simp add: acronym_match_def)

lemma initialism_match_ge: "r \<le> initialism_match a b ws r"
  by (simp add: initialism_match_def Let_def)

lemma initialism_match_unit:
  "0 \<le> r \<Longrightarrow> r \<le> 1 \<Longrightarrow> 0 \<le> initialism_match a b ws r \<and> initialism_match a b ws r \<le> 1"
  by (auto simp: initialism_match_def Let_def le_max_iff_disj)

lemma penalised_unit:
  fixes r x :: real
  assumes "0 \<le> r" "r \<le> 1" "0 \<le> x"
  shows "0 \<le> max 0.15 (r * (1.0 - min 0.6 (x * 1.5)))
         \<and> max 0.15 (r * (1.0 - min 0.6 (x * 1.5))) \<le> 1"
proof -
  let ?p = "min 0.6 (x * 1.5)"
  from assms(3) have p: "0 \<le> ?p" "?p \<le> 0.6" by simp_all
  then have q: "0 \<le> 1 - ?p" "1 - ?p \<le> 1" by linarith+
  from assms(1,2) q have "r * (1 - ?p) \<le> 1"
    by (simp add: mult_le_one)
  then show ?thesis by (simp add: le_max_iff_disj)
qed

lemma edit_distance_check_unit:
  assumes "0 \<le> r" "r \<le> 1" "(a \<noteq> [] \<and> b \<noteq> []) \<or> 0.75 < r"
  shows "\<exists>r'. edit_distance_check a b r = Inr r' \<and> 0 \<le> r' \<and> r' \<le> 1"
proof (cases "0.5 \<le> r \<and> r \<le> 0.75")
  case False
  with assms show ?thesis by (auto simp: edit_distance_check_def)
next
  case True
  with assms have ne: "a \<noteq> []" "b \<noteq> []" by auto
  then obtain ed mp where sed: "simple_edit_distance a b = Inr (ed, mp)"
    by (auto simp: simple_edit_distance_def Let_def)
  from ne have ml: "0 < max (length a) (length b)" by (simp add: less_max_iff_disj)
  let ?ratio = "ed / real (max (length a) (length b))"
  show ?thesis
  proof (cases "0.5 < ?ratio")
    case hi: True
    then have "0 \<le> ?ratio" by linarith
    have "edit_distance_check a b r = Inr (max 0.15 (r * (1.0 - min 0.6 (?ratio * 1.5))))"
      using True sed ml hi by (simp add: edit_distance_check_def Let_def)
    with penalised_unit [OF assms(1,2) \<open>0 \<le> ?ratio\<close>] show ?thesis by blast
  next
    case lo: False
    show ?thesis
    proof (cases "?ratio < 0.1 \<and> 0.8 < mp")
      case b: True
      from assms(1) have "0 \<le> min 0.95 (r * 1.1)" by simp
      moreover have "min 0.95 (r * 1.1) \<le> 1" by (simp add: min_le_iff_disj)
      moreover have "edit_distance_check a b r = Inr (min 0.95 (r * 1.1))"
        using True sed ml lo b by (simp add: edit_distance_check_def Let_def)
      ultimately show ?thesis by blast
    next
      case nb: False
      with True sed ml lo assms(1,2) show ?thesis
        by (auto simp: edit_distance_check_def Let_def)
    qed
  qed
qed

lemma domain_match_ratio_unit:
  "\<exists>r. domain_match_ratio ws name domain = Inr r \<and> 0 \<le> r \<and> r \<le> 1"
proof (cases "ws = []")
  case True
  then show ?thesis by (simp add: domain_match_ratio_def Let_def)
next
  case False
  let ?dw = "filter (\<lambda>w. 2 < length w) (split_ws (re_sub_nonword domain))"
  let ?r0 = "real (length (filter (\<lambda>w. w \<in> set ?dw) ws)) / real (length ws)"
  let ?a = "filter is_alnum name"
  let ?b = "filter is_alnum domain"
  let ?r1 = "boost_first_word domain (hd ws) ?r0"
  let ?r2 = "fuzzy_match ?a ?b (tl ws) ?r1"
  let ?r3 = "prefix_match ?a ?b ?r2"
  let ?r4 = "hyphen_match ?a ?b ?r3"
  let ?r5 = "acronym_match ?a ?b ?r4"
  let ?r6 = "initialism_match ?a ?b (tl ws) ?r5"
  have "length (filter (\<lambda>w. w \<in> set ?dw) ws) \<le> length ws" by (rule length_filter_le)
  with False have u0: "0 \<le> ?r0 \<and> ?r0 \<le> 1" by simp
  then have u1: "0 \<le> ?r1 \<and> ?r1 \<le> 1" using boost_first_word_unit by blast
  then have u2: "0 \<le> ?r2 \<and> ?r2 \<le> 1" using fuzzy_match_unit by blast
  then have u3: "0 \<le> ?r3 \<and> ?r3 \<le> 1" using prefix_match_unit by blast
  then have u4: "0 \<le> ?r4 \<and> ?r4 \<le> 1" using hyphen_match_unit by blast
  then have u5: "0 \<le> ?r5 \<and> ?r5 \<le> 1" using acronym_match_unit by blast
  then have u6: "0 \<le> ?r6 \<and> ?r6 \<le> 1" using initialism_match_unit by blast
  have big: "(?a \<noteq> [] \<and> ?b \<noteq> []) \<or> 0.75 < ?r6"
  proof (cases "?a = [] \<or> ?b = []")
    case True
    then have "0.95 \<le> ?r4" by (rule hyphen_match_empty)
    also have "?r4 \<le> ?r5" by (rule acronym_match_ge)
    also have "?r5 \<le> ?r6" by (rule initialism_match_ge)
    finally show ?thesis by simp
  next
    case False
    then show ?thesis by simp
  qed
  from edit_distance_check_unit [of ?r6 ?a ?b] u6 big
  obtain r' where "edit_distance_check ?a ?b ?r6 = Inr r'" "0 \<le> r'" "r' \<le> 1" by blast
  with False show ?thesis by (simp add: domain_match_ratio_def Let_def)
qed

lemma urlparse_error: "urlparse u = Inl e \<Longrightarrow> e = ValueError"
  by (auto simp: urlparse_def Let_def split: prod.splits if_splits)

lemma calculate_domain_match_unit:
  "\<exists>r. calculate_domain_match set_iter company result = Inr r \<and> 0 \<le> r \<and> r \<le> 1"
proof (cases "url result = []")
  case True
  then show ?thesis by (simp add: calculate_domain_match_def)
next
  case False
  show ?thesis
  proof (cases "urlparse (url result)")
    case (Inl e)
    with urlparse_error [OF Inl] False show ?thesis
      by (simp add: calculate_domain_match_def catching_def)
  next
    case (Inr parsed)
    obtain r where "domain_match_ratio
        (set_iter (split_ws (lower (re_sub_nonword
            (clean_company_name_for_matching (company_name company))))))
        (lower (re_sub_nonword (clean_company_name_for_matching (company_name company))))
        (main_domain (netloc parsed)) = Inr r" "0 \<le> r" "r \<le> 1"
      using domain_match_ratio_unit by blast
    with Inr False show ?thesis
      by (simp add: calculate_domain_match_def catching_def Let_def)
  qed
qed

lemma tld_score_unit: "0 \<le> tld_score d uk \<and> tld_score d uk \<le> 1"
  by (simp add: tld_score_def)

lemma calculate_tld_relevance_unit:
  "\<exists>r. calculate_tld_relevance result company = Inr r \<and> 0 \<le> r \<and> r \<le> 1"
proof (cases "url result = []")
  case True
  then show ?thesis by (simp add: calculate_tld_relevance_def)
next
  case False
  show ?thesis
  proof (cases "urlparse (url result)")
    case (Inl e)
    with urlparse_error [OF Inl] False
    have "calculate_tld_relevance result company = Inr 0.2"
      by (simp add: calculate_tld_relevance_def catching_def)
    then show ?thesis by (intro exI [of _ "0.2"]) simp
  next
    case (Inr parsed)
    with False show ?thesis
      by (simp add: calculate_tld_relevance_def catching_def Let_def tld_score_unit)
  qed
qed

lemma calculate_position_score_unit:
  "0 \<le> calculate_position_score result \<and> calculate_position_score result \<le> 1"
  by (simp add: calculate_position_score_def le_max_iff_disj)

lemma calculate_title_match_unit:
  "0 \<le> calculate_title_match company result \<and> calculate_title_match company result \<le> 1"
proof -
  have frac: "0 \<le> real (length (filter P xs)) / real (length (remdups (xs @ ys)))
      \<and> real (length (filter P xs)) / real (length (remdups (xs @ ys))) \<le> 1"
    if "distinct xs" "xs \<noteq> []" for P and xs ys :: "string list"
  proof -
    have "length (filter P xs) \<le> length xs" by (rule length_filter_le)
    also have "length xs = card (set xs)" using that(1) by (simp add: distinct_card)
    also have "\<dots> \<le> card (set (xs @ ys))" by (rule card_mono) auto
    also have "\<dots> = length (remdups (xs @ ys))" by (simp only: length_remdups_card_conv)
    finally have "length (filter P xs) \<le> length (remdups (xs @ ys))" .
    then show ?thesis by (simp add: divide_le_eq_1)
  qed
  show ?thesis
    using frac by (auto simp: calculate_title_match_def Let_def min_le_iff_disj)
qed

section \<open>The score lies between 0 and 100\<close>

lemma round_half_even_bounds:
  assumes "0 \<le> x" "x \<le> of_int n"
  shows "0 \<le> round_half_even x \<and> round_half_even x \<le> n"
proof -
  let ?f = "\<lfloor>x\<rfloor>"
  from assms(1) have f0: "0 \<le> ?f" by simp
  from assms(2) have fn: "?f \<le> n" by (simp add: floor_le_iff)
  show ?thesis
  proof (cases "x - of_int ?f < 1 / 2")
    case True
    with f0 fn show ?thesis by (simp add: round_half_even_def Let_def)
  next
    case False
    then have "of_int ?f < x" by linarith
    with assms(2) have "of_int ?f < (of_int n :: real)" by linarith
    then have "?f < n" by simp
    then have "?f + 1 \<le> n" by simp
    with f0 fn False show ?thesis by (auto simp: round_half_even_def Let_def)
  qed
qed

lemma round2_percent:
  assumes "0 \<le> c" "c \<le> 1"
  shows "0 \<le> round2 (c * 100) \<and> round2 (c * 100) \<le> 100"
proof -
  let ?k = "round_half_even (c * 100 * 100)"
  from assms have "0 \<le> c * 100 * 100" "c * 100 * 100 \<le> of_int 10000" by simp_all
  from round_half_even_bounds [OF this] have k: "0 \<le> ?k" "?k \<le> 10000"
    by blast+
  from k(1) have a: "0 \<le> (of_int ?k :: real)" by (simp only: of_int_0_le_iff)
  from k(2) have "(of_int ?k :: real) \<le> of_int 10000" by (simp only: of_int_le_iff)
  then have b: "(of_int ?k :: real) \<le> 10000" by simp
  have "round2 (c * 100) = of_int ?k / 100" by (simp only: round2_def)
  with a b show ?thesis by simp
qed

lemma calculate_score_value:
  assumes "calculate_domain_match set_iter company result = Inr d"
    and "calculate_tld_relevance result (Some company) = Inr t"
    and "map_of (weights self) ''domain_match'' = Some wd"
    and "map_of (weights self) ''tld_relevance'' = Some wt"
    and "map_of (weights self) ''search_position'' = Some wp"
    and "map_of (weights self) ''title_match'' = Some wti"
  shows "calculate_score set_iter self company result =
     (Inr (round2 ((d * wd + t * wt + calculate_position_score result * wp
                    + calculate_title_match company result * wti) * 100)),
      self\<lparr>last_domain_score := Some d, last_tld_score := Some t,
           last_position_score := Some (calculate_position_score result),
           last_title_score := Some (calculate_title_match company result)\<rparr>)"
  using assms by (simp add: calculate_score_def weight_of_def Let_def)

lemma weighted_sum_unit:
  fixes d t p ti wd wt wp wti :: real
  assumes "0 \<le> d \<and> d \<le> 1" "0 \<le> t \<and> t \<le> 1" "0 \<le> p \<and> p \<le> 1" "0 \<le> ti \<and> ti \<le> 1"
    and "0 \<le> wd" "0 \<le> wt" "0 \<le> wp" "0 \<le> wti" "wd + wt + wp + wti \<le> 1"
  shows "0 \<le> d * wd + t * wt + p * wp + ti * wti \<and> d * wd + t * wt + p * wp + ti * wti \<le> 1"
proof -
  have a: "d * wd \<le> wd" "t * wt \<le> wt" "p * wp \<le> wp" "ti * wti \<le> wti"
    using assms by (simp_all add: mult_left_le_one_le)
  have b: "0 \<le> d * wd" "0 \<le> t * wt" "0 \<le> p * wp" "0 \<le> ti * wti"
    using assms by simp_all
  from a b assms(9) show ?thesis by linarith
qed

lemma four_le_sum_values:
  assumes dist: "distinct (map fst ws)"
    and nonneg: "\<forall>p\<in>set ws. 0 \<le> snd p"
    and k: "map_of ws k1 = Some v1" "map_of ws k2 = Some v2"
           "map_of ws k3 = Some v3" "map_of ws k4 = Some v4"
    and diff: "distinct [k1, k2, k3, k4]"
  shows "v1 + v2 + v3 + v4 \<le> sum_values ws"
proof -
  from dist have dws: "distinct ws" by (simp add: distinct_map)
  let ?S = "{(k1, v1), (k2, v2), (k3, v3), (k4, v4)}"
  from k have sub: "?S \<subseteq> set ws" by (auto dest: map_of_SomeD)
  have "sum snd ?S = v1 + v2 + v3 + v4" using diff by simp
  moreover have "sum snd ?S \<le> sum snd (set ws)"
    using sub nonneg by (intro sum_mono2) auto
  moreover have "sum snd (set ws) = sum_list (map snd ws)"
    using dws by (simp add: sum_list_distinct_conv_sum_set)
  ultimately show ?thesis by (simp add: sum_values_def)
qed

lemma map_of_scaled:
  "map_of (map (\<lambda>(k, v). (k, v / t)) ws) k = map_option (\<lambda>v. v / t) (map_of ws k)"
  by (induction ws) auto

lemma sum_values_nonneg: "\<forall>p\<in>set ws. 0 \<le> snd p \<Longrightarrow> 0 \<le> sum_values ws"
  by (induction ws) (auto simp: sum_values_def)

lemma sum_values_zero:
  "\<forall>p\<in>set ws. 0 \<le> snd p \<Longrightarrow> sum_values ws \<le> 0 \<Longrightarrow> map_of ws k = Some v \<Longrightarrow> v = 0"
proof (induction ws)
  case Nil
  then show ?case by simp
next
  case (Cons p ws)
  from Cons.prems(1) have "0 \<le> snd p" "0 \<le> sum_values ws"
    by (simp_all add: sum_values_nonneg)
  with Cons.prems(2) have z: "snd p = 0" "sum_values ws \<le> 0"
    by (simp_all add: sum_values_def)
  with Cons show ?case by (cases p) (auto split: if_splits)
qed

lemma init_weights:
  assumes "ws_opt = None \<or> ws_opt = Some [] \<or> (\<exists>ws. ws_opt = Some ws \<and> weights_ok ws)"
  shows "\<exists>wd wt wp wti.
      map_of (weights (ConfidenceScorer_init ws_opt)) ''domain_match'' = Some wd
    \<and> map_of (weights (ConfidenceScorer_init ws_opt)) ''tld_relevance'' = Some wt
    \<and> map_of (weights (ConfidenceScorer_init ws_opt)) ''search_position'' = Some wp
    \<and> map_of (weights (ConfidenceScorer_init ws_opt)) ''title_match'' = Some wti
    \<and> 0 \<le> wd \<and> 0 \<le> wt \<and> 0 \<le> wp \<and> 0 \<le> wti \<and> wd + wt + wp + wti \<le> 1"
proof -
  from assms consider "ws_opt = None \<or> ws_opt = Some []"
    | ws where "ws_opt = Some ws" "ws \<noteq> []" "weights_ok ws"
    by (cases ws_opt) auto
  then show ?thesis
  proof cases
    case 1
    then have "weights (ConfidenceScorer_init ws_opt) = map (\<lambda>(k, v). (k, v / 1)) default_weights"
      by (auto simp: ConfidenceScorer_init_def Let_def sum_values_default)
    then show ?thesis
      by (intro exI [of _ "0.4"] exI [of _ "0.1"]) (simp add: default_weights_def)
  next
    case 2
    from 2(3) have dist: "distinct (map fst ws)" and nonneg: "\<forall>p\<in>set ws. 0 \<le> snd p"
      by (simp_all add: weights_ok_def)
    from 2(3) dist obtain v1 v2 v3 v4 where
      v: "map_of ws ''domain_match'' = Some v1" "map_of ws ''tld_relevance'' = Some v2"
         "map_of ws ''search_position'' = Some v3" "map_of ws ''title_match'' = Some v4"
      unfolding weights_ok_def
      by (metis (no_types, lifting) insert_subset map_of_eq_None_iff option.exhaust)
    from v nonneg have vn: "0 \<le> v1" "0 \<le> v2" "0 \<le> v3" "0 \<le> v4"
      by (auto dest!: map_of_SomeD)
    have le: "v1 + v2 + v3 + v4 \<le> sum_values ws"
      by (rule four_le_sum_values [OF dist nonneg v]) simp
    show ?thesis
    proof (cases "0 < sum_values ws")
      case True
      let ?t = "sum_values ws"
      from 2 True have w: "weights (ConfidenceScorer_init ws_opt) = map (\<lambda>(k, v). (k, v / ?t)) ws"
        by (simp add: ConfidenceScorer_init_def Let_def)
      have "v1 / ?t + v2 / ?t + v3 / ?t + v4 / ?t = (v1 + v2 + v3 + v4) / ?t"
        by (simp add: add_divide_distrib)
      also have "\<dots> \<le> 1" using le True by simp
      finally have s: "v1 / ?t + v2 / ?t + v3 / ?t + v4 / ?t \<le> 1" .
      from vn True have n: "0 \<le> v1 / ?t" "0 \<le> v2 / ?t" "0 \<le> v3 / ?t" "0 \<le> v4 / ?t"
        by simp_all
      from v w s n show ?thesis by (simp only: map_of_scaled option.map) blast
    next
      case False
      with 2 have w: "weights (ConfidenceScorer_init ws_opt) = ws"
        by (simp add: ConfidenceScorer_init_def Let_def)
      from False have "sum_values ws \<le> 0" by simp
      from sum_values_zero [OF nonneg this] v have "v1 = 0" "v2 = 0" "v3 = 0" "v4 = 0"
        by blast+
      with v w show ?thesis by simp
    qed
  qed
qed

text \<open>
  Claim C1: for every company and candidate, and for the default weights or any weight
  dictionary with non-negative weights that holds the four signal names,
  \<open>calculate_score\<close> returns a value between 0 and 100.
\<close>

theorem calculate_score_bounded:
  assumes "ws_opt = None \<or> ws_opt = Some [] \<or>
     (\<exists>ws. ws_opt = Some ws \<and> distinct (map fst ws) \<and> (\<forall>p\<in>set ws. 0 \<le> snd p)
        \<and> {''domain_match'', ''tld_relevance'', ''search_position'', ''title_match''}
             \<subseteq> fst ` set ws)"
  shows "\<exists>s. fst (calculate_score set_iter (ConfidenceScorer_init ws_opt) company result) = Inr s
           \<and> 0 \<le> s \<and> s \<le> 100"
proof -
  let ?self = "ConfidenceScorer_init ws_opt"
  from assms have "ws_opt = None \<or> ws_opt = Some [] \<or> (\<exists>ws. ws_opt = Some ws \<and> weights_ok ws)"
    by (simp add: weights_ok_def)
  from init_weights [OF this] obtain wd wt wp wti where
    w: "map_of (weights ?self) ''domain_match'' = Some wd"
       "map_of (weights ?self) ''tld_relevance'' = Some wt"
       "map_of (weights ?self) ''search_position'' = Some wp"
       "map_of (weights ?self) ''title_match'' = Some wti"
    and wn: "0 \<le> wd" "0 \<le> wt" "0 \<le> wp" "0 \<le> wti" "wd + wt + wp + wti \<le> 1"
    by blast
  obtain d where d: "calculate_domain_match set_iter company result = Inr d" "0 \<le> d \<and> d \<le> 1"
    using calculate_domain_match_unit by blast
  obtain t where t: "calculate_tld_relevance result (Some company) = Inr t" "0 \<le> t \<and> t \<le> 1"
    using calculate_tld_relevance_unit by blast
  let ?c = "d * wd + t * wt + calculate_position_score result * wp
              + calculate_title_match company result * wti"
  have "0 \<le> ?c \<and> ?c \<le> 1"
    by (rule weighted_sum_unit [OF d(2) t(2) calculate_position_score_unit
              calculate_title_match_unit wn])
  then have "0 \<le> round2 (?c * 100) \<and> round2 (?c * 100) \<le> 100"
    using round2_percent by blast
  moreover have "fst (calculate_score set_iter ?self company result) = Inr (round2 (?c * 100))"
    by (simp add: calculate_score_value [OF d(1) t(1) w])
  ultimately show ?thesis by blast
qed

theorem calculate_score_bounded_witness:
  "\<exists>s. fst (calculate_score remdups
          (ConfidenceScorer_init (Some [(''domain_match'', 2), (''tld_relevance'', 1),
                                        (''search_position'', 1), (''title_match'', 1)]))
          acme_company \<lparr>url = [], title = [], snippet = [], position = 0\<rparr>) = Inr s
       \<and> 0 \<le> s \<and> s \<le> 100"
proof -
  have h: "Some [(''domain_match'', 2), (''tld_relevance'', 1),
                 (''search_position'', 1), (''title_match'', 1::real)] = None
     \<or> Some [(''domain_match'', 2), (''tld_relevance'', 1),
                 (''search_position'', 1), (''title_match'', 1::real)] = Some []
     \<or> (\<exists>ws. Some [(''domain_match'', 2), (''tld_relevance'', 1),
                 (''search_position'', 1), (''title_match'', 1::real)] = Some ws
          \<and> distinct (map fst ws) \<and> (\<forall>p\<in>set ws. 0 \<le> snd p)
          \<and> {''domain_match'', ''tld_relevance'', ''search_position'', ''title_match''}
               \<subseteq> fst ` set ws)"
    by simp
  show ?thesis
    by (rule calculate_score_bounded [OF h])
qed

section \<open>Malformed input\<close>

lemma two_orders:
  assumes "distinct ys" "set ys = {a, b}" "a \<noteq> b"
  shows "ys = [a, b] \<or> ys = [b, a]"
proof -
  from assms have "length ys = 2" by (metis card_2_iff distinct_card)
  then obtain x y where "ys = [x, y]"
    by (cases ys; cases "tl ys") auto
  with assms show ?thesis by (auto simp: doubleton_eq_iff)
qed

lemma map_of_present:
  "k \<in> fst ` set ws \<Longrightarrow> \<exists>v. map_of ws k = Some v"
  by (cases "map_of ws k") (auto simp: map_of_eq_None_iff)

text \<open>
  Claim C2, as stated, fails: \<open>urlparse\<close> rejects \<open>http://[\<close>, and the TLD sub-score of
  such a candidate is 0.2, the value of the \<open>except\<close> branch, not 0.
\<close>

theorem tld_not_degraded_counterexample:
  "urlparse ''http://['' = Inl ValueError
   \<and> get_scoring_details (snd (calculate_score remdups (ConfidenceScorer_init None) acme_company
        \<lparr>url = ''http://['', title = ''Acme Software Ltd'', snippet = [], position = 1\<rparr>))
      = (0, 1 / 5, 1, 1 / 2)"
  by code_simp

text \<open>
  Claim C2, amended: with a weight dictionary that holds the four signal names,
  \<open>calculate_score\<close> returns a score for every company and candidate; an empty URL makes
  the domain and the TLD sub-score 0; a URL that \<open>urlparse\<close> rejects makes the domain
  sub-score 0 and the TLD sub-score 0.2; a position of 0 or less makes the position
  sub-score 0; an empty title makes the title sub-score 0.
\<close>

theorem calculate_score_never_raises:
  assumes "{''domain_match'', ''tld_relevance'', ''search_position'', ''title_match''}
             \<subseteq> fst ` set (weights self)"
  shows "(\<exists>s. fst (calculate_score set_iter self company result) = Inr s)
     \<and> (url result = [] \<longrightarrow>
          fst (get_scoring_details (snd (calculate_score set_iter self company result))) = 0
          \<and> fst (snd (get_scoring_details (snd (calculate_score set_iter self company result)))) = 0)
     \<and> (url result \<noteq> [] \<and> (\<exists>e. urlparse (url result) = Inl e) \<longrightarrow>
          fst (get_scoring_details (snd (calculate_score set_iter self company result))) = 0
          \<and> fst (snd (get_scoring_details (snd (calculate_score set_iter self company result))))
              = 0.2)
     \<and> (position result \<le> 0 \<longrightarrow>
          fst (snd (snd (get_scoring_details
             (snd (calculate_score set_iter self company result))))) = 0)
     \<and> (title result = [] \<longrightarrow>
          snd (snd (snd (get_scoring_details
             (snd (calculate_score set_iter self company result))))) = 0)"
proof -
  from assms obtain wd wt wp wti where
    w: "map_of (weights self) ''domain_match'' = Some wd"
       "map_of (weights self) ''tld_relevance'' = Some wt"
       "map_of (weights self) ''search_position'' = Some wp"
       "map_of (weights self) ''title_match'' = Some wti"
    using map_of_present [of _ "weights self"] by (meson insert_subset)
  obtain d where d: "calculate_domain_match set_iter company result = Inr d"
    using calculate_domain_match_unit by blast
  obtain t where t: "calculate_tld_relevance result (Some company) = Inr t"
    using calculate_tld_relevance_unit by blast
  note v = calculate_score_value [OF d t w]
  have details: "get_scoring_details (snd (calculate_score set_iter self company result)) =
     (d, t, calculate_position_score result, calculate_title_match company result)"
    by (simp add: v get_scoring_details_def)
  have empty: "url result = [] \<Longrightarrow> d = 0 \<and> t = 0"
    using d t by (simp add: calculate_domain_match_def calculate_tld_relevance_def)
  have bad: "url result \<noteq> [] \<Longrightarrow> urlparse (url result) = Inl e \<Longrightarrow> d = 0 \<and> t = 0.2" for e
    using d t urlparse_error [of "url result" e]
    by (simp add: calculate_domain_match_def calculate_tld_relevance_def catching_def)
  have pos: "position result \<le> 0 \<Longrightarrow> calculate_position_score result = 0"
    by (simp add: calculate_position_score_def)
  have ttl: "title result = [] \<Longrightarrow> calculate_title_match company result = 0"
    by (simp add: calculate_title_match_def)
  have ret: "\<exists>s. fst (calculate_score set_iter self company result) = Inr s"
    by (simp add: v)
  show ?thesis
    unfolding details using ret empty bad pos ttl by auto
qed

theorem calculate_score_never_raises_witness:
  "(\<exists>s. fst (calculate_score remdups (ConfidenceScorer_init None) acme_company
             \<lparr>url = [], title = [], snippet = [], position = 0\<rparr>) = Inr s)
   \<and> get_scoring_details (snd (calculate_score remdups (ConfidenceScorer_init None) acme_company
             \<lparr>url = [], title = [], snippet = [], position = 0\<rparr>)) = (0, 0, 0, 0)
   \<and> fst (get_scoring_details (snd (calculate_score remdups (ConfidenceScorer_init None)
             acme_company
             \<lparr>url = ''http://['', title = ''Acme Software Ltd'', snippet = [], position = 1\<rparr>))) = 0
   \<and> fst (snd (get_scoring_details (snd (calculate_score remdups (ConfidenceScorer_init None)
             acme_company
             \<lparr>url = ''http://['', title = ''Acme Software Ltd'', snippet = [], position = 1\<rparr>))))
       = 0.2"
proof -
  have k: "{''domain_match'', ''tld_relevance'', ''search_position'', ''title_match''}
             \<subseteq> fst ` set (weights (ConfidenceScorer_init None))"
    by (simp add: ConfidenceScorer_init_def default_weights_def sum_values_def)
  have u: "url \<lparr>url = ''http://['', title = ''Acme Software Ltd'', snippet = [], position = 1\<rparr>
             \<noteq> []
     \<and> (\<exists>e. urlparse (url \<lparr>url = ''http://['', title = ''Acme Software Ltd'', snippet = [],
                               position = 1\<rparr>) = Inl e)"
  proof -
    have "urlparse ''http://['' = Inl ValueError" by code_simp
    then show ?thesis by simp
  qed
  note a = calculate_score_never_raises [OF k, of remdups acme_company
             "\<lparr>url = [], title = [], snippet = [], position = 0\<rparr>"]
  note b = calculate_score_never_raises [OF k, of remdups acme_company
             "\<lparr>url = ''http://['', title = ''Acme Software Ltd'', snippet = [], position = 1\<rparr>"]
  from a have a1: "\<exists>s. fst (calculate_score remdups (ConfidenceScorer_init None) acme_company
             \<lparr>url = [], title = [], snippet = [], position = 0\<rparr>) = Inr s"
    by blast
  from a have a2: "get_scoring_details (snd (calculate_score remdups (ConfidenceScorer_init None)
             acme_company \<lparr>url = [], title = [], snippet = [], position = 0\<rparr>)) = (0, 0, 0, 0)"
    by (simp add: prod_eq_iff)
  from b u show ?thesis using a1 a2 by blast
qed

section \<open>The scenario of a near-exact match\<close>

lemma acme_url: "urlparse (url acme_result) =
    Inr \<lparr>scheme = ''https'', netloc = ''acmesoftware.co.uk'', path = [], query = [],
          fragment = []\<rparr>"
  by code_simp

lemma acme_url_nonempty: "url acme_result \<noteq> []"
  by code_simp

lemma acme_main_domain: "main_domain ''acmesoftware.co.uk'' = ''acmesoftware.co.uk''"
  by code_simp

lemma acme_name:
  "lower (re_sub_nonword (clean_company_name_for_matching (company_name acme_company)))
     = ''acme software''"
  by code_simp

lemma acme_words: "split_ws ''acme software'' = [''acme'', ''software'']"
  by code_simp

lemma acme_ratio_1:
  "domain_match_ratio [''acme'', ''software''] ''acme software'' ''acmesoftware.co.uk''
     = Inr (19 / 20)"
  by code_simp

lemma acme_ratio_2:
  "domain_match_ratio [''software'', ''acme''] ''acme software'' ''acmesoftware.co.uk''
     = Inr (19 / 20)"
  by code_simp

lemma acme_tld: "calculate_tld_relevance acme_result (Some acme_company) = Inr 1"
  by code_simp

lemma acme_position: "calculate_position_score acme_result = 1"
  by code_simp

lemma acme_title: "calculate_title_match acme_company acme_result = 1 / 2"
  by code_simp

lemma default_weight_lookup:
  "map_of (weights (ConfidenceScorer_init None)) ''domain_match'' = Some (2 / 5)"
  "map_of (weights (ConfidenceScorer_init None)) ''tld_relevance'' = Some (2 / 5)"
  "map_of (weights (ConfidenceScorer_init None)) ''search_position'' = Some (1 / 10)"
  "map_of (weights (ConfidenceScorer_init None)) ''title_match'' = Some (1 / 10)"
  by (simp_all add: ConfidenceScorer_init_def default_weights_def sum_values_def)

lemma acme_round: "round2 ((19 / 20 * (2 / 5) + 1 * (2 / 5) + 1 * (1 / 10) + 1 / 2 * (1 / 10)) * 100) = 93"
  by code_simp

text \<open>
  Claim C4: whatever the order in which Python iterates the set of name words, the
  scenario of the specification scores 93 with the default weights, which is at least 80.
\<close>

theorem acme_scenario_score:
  assumes "\<And>xs. distinct (set_iter xs) \<and> set (set_iter xs) = set xs"
  shows "\<exists>s. fst (calculate_score set_iter (ConfidenceScorer_init None) acme_company acme_result)
               = Inr s \<and> s = 93 \<and> 80 \<le> s"
proof -
  have "distinct (set_iter [''acme'', ''software''])"
    "set (set_iter [''acme'', ''software'']) = {''acme'', ''software''}"
    using assms [of "[''acme'', ''software'']"] by simp_all
  then have "set_iter [''acme'', ''software''] = [''acme'', ''software'']
             \<or> set_iter [''acme'', ''software''] = [''software'', ''acme'']"
    by (rule two_orders) simp
  then have "domain_match_ratio (set_iter [''acme'', ''software'']) ''acme software''
               ''acmesoftware.co.uk'' = Inr (19 / 20)"
    using acme_ratio_1 acme_ratio_2 by auto
  then have d: "calculate_domain_match set_iter acme_company acme_result = Inr (19 / 20)"
    by (simp add: calculate_domain_match_def Let_def acme_url acme_url_nonempty
          acme_main_domain acme_name acme_words catching_def)
  have "fst (calculate_score set_iter (ConfidenceScorer_init None) acme_company acme_result)
          = Inr 93"
    by (simp only: calculate_score_value [OF d acme_tld default_weight_lookup]
          acme_position acme_title acme_round fst_conv)
  then show ?thesis by simp
qed

theorem acme_scenario_score_witness:
  "fst (calculate_score remdups (ConfidenceScorer_init None) acme_company acme_result) = Inr 93"
proof -
  have "\<And>xs :: string list. distinct (remdups xs) \<and> set (remdups xs) = set xs"
    by simp
  from acme_scenario_score [of remdups, OF this] show ?thesis by simp
qed

section \<open>The filters return subsequences\<close>

lemma filter_by_confidence_loop_subseq:
  "fst (filter_by_confidence_loop set_iter self company threshold filtered rs) = Inr ys
   \<Longrightarrow> \<exists>zs. ys = filtered @ zs \<and> subseq zs rs"
proof (induction rs arbitrary: self filtered)
  case Nil
  then show ?case by simp
next
  case (Cons r rs)
  obtain res self' where cs: "calculate_score set_iter self company r = (res, self')"
    by (cases "calculate_score set_iter self company r")
  show ?case
  proof (cases res)
    case (Inl e)
    with Cons.prems cs show ?thesis by simp
  next
    case (Inr score)
    with Cons.prems cs have
      "fst (filter_by_confidence_loop set_iter self' company threshold
             (if threshold \<le> score then filtered @ [r] else filtered) rs) = Inr ys"
      by simp
    from Cons.IH [OF this] obtain zs where
      zs: "ys = (if threshold \<le> score then filtered @ [r] else filtered) @ zs" "subseq zs rs"
      by blast
    show ?thesis
    proof (cases "threshold \<le> score")
      case True
      with zs have "ys = filtered @ (r # zs)" "subseq (r # zs) (r # rs)" by simp_all
      then show ?thesis by blast
    next
      case False
      with zs have "ys = filtered @ zs" "subseq zs (r # rs)" by (simp_all add: list_emb_Cons)
      then show ?thesis by blast
    qed
  qed
qed

lemma filter_domains_subseq:
  "filter_domains blocked rs = Inr ys \<Longrightarrow> subseq ys rs"
  by (induction rs arbitrary: ys) (auto split: sum.splits if_splits intro: list_emb_Cons)

lemma enhanced_filter_results_subseq:
  assumes "fst (enhanced_filter_results ef rs name) = Inr zs"
  shows "subseq zs rs"
proof -
  from assms obtain filtered where
    st: "apply_static_filter ef rs = Inr filtered"
    and dy: "fst (apply_dynamic_filter ef filtered name) = Inr zs"
    by (auto simp: enhanced_filter_results_def split: sum.splits)
  from st have a: "subseq filtered rs"
    by (simp add: apply_static_filter_def filter_domains_subseq)
  from dy have b: "subseq zs filtered"
    by (auto simp: apply_dynamic_filter_def split: prod.splits sum.splits
             dest: filter_domains_subseq)
  from b a show ?thesis by (rule subseq_order.trans)
qed

lemma calculate_score_weights:
  "weights (snd (calculate_score set_iter self company result)) = weights self"
  by (simp add: calculate_score_def Let_def split: sum.splits)

lemma calculate_score_returns:
  assumes "{''domain_match'', ''tld_relevance'', ''search_position'', ''title_match''}
             \<subseteq> fst ` set (weights self)"
  shows "\<exists>s. fst (calculate_score set_iter self company result) = Inr s"
proof -
  from assms obtain wd wt wp wti where
    w: "map_of (weights self) ''domain_match'' = Some wd"
       "map_of (weights self) ''tld_relevance'' = Some wt"
       "map_of (weights self) ''search_position'' = Some wp"
       "map_of (weights self) ''title_match'' = Some wti"
    using map_of_present [of _ "weights self"] by (meson insert_subset)
  obtain d where d: "calculate_domain_match set_iter company result = Inr d"
    using calculate_domain_match_unit by blast
  obtain t where t: "calculate_tld_relevance result (Some company) = Inr t"
    using calculate_tld_relevance_unit by blast
  show ?thesis by (simp add: calculate_score_value [OF d t w])
qed

lemma filter_by_confidence_loop_returns:
  "{''domain_match'', ''tld_relevance'', ''search_position'', ''title_match''}
      \<subseteq> fst ` set (weights self)
   \<Longrightarrow> \<exists>ys. fst (filter_by_confidence_loop set_iter self company threshold filtered rs) = Inr ys"
proof (induction rs arbitrary: self filtered)
  case Nil
  show ?case by simp
next
  case (Cons r rs)
  from calculate_score_returns [OF Cons.prems, of set_iter company r]
  obtain s self' where cs: "calculate_score set_iter self company r = (Inr s, self')"
    by (cases "calculate_score set_iter self company r") auto
  have "weights self' = weights self"
    using calculate_score_weights [of set_iter self company r] cs by simp
  with Cons.prems have "{''domain_match'', ''tld_relevance'', ''search_position'', ''title_match''}
      \<subseteq> fst ` set (weights self')" by simp
  from Cons.IH [OF this] cs show ?case by simp
qed

lemma extract_domain_parses:
  "urlparse u = Inr p \<Longrightarrow> \<exists>d. extract_domain u = Inr d"
  by (simp add: extract_domain_def Let_def)

lemma filter_domains_returns:
  "\<forall>r\<in>set rs. \<exists>p. urlparse (url r) = Inr p \<Longrightarrow> \<exists>ys. filter_domains blocked rs = Inr ys"
proof (induction rs)
  case Nil
  show ?case by simp
next
  case (Cons r rs)
  then obtain d ys where "extract_domain (url r) = Inr d" "filter_domains blocked rs = Inr ys"
    using extract_domain_parses by fastforce
  then show ?case by simp
qed

lemma track_loop_returns:
  "\<forall>r\<in>set rs. \<exists>p. urlparse (url r) = Inr p \<Longrightarrow> fst (track_loop name s rs) = Inr ()"
proof (induction rs arbitrary: s)
  case Nil
  show ?case by simp
next
  case (Cons r rs)
  then obtain d where "extract_domain (url r) = Inr d"
    using extract_domain_parses by fastforce
  with Cons show ?case by simp
qed

lemma enhanced_filter_results_returns:
  assumes "\<forall>r\<in>set rs. \<exists>p. urlparse (url r) = Inr p"
  shows "\<exists>zs. fst (enhanced_filter_results ef rs name) = Inr zs"
proof -
  from filter_domains_returns [OF assms] obtain filtered where
    st: "apply_static_filter ef rs = Inr filtered"
    by (auto simp: apply_static_filter_def)
  then have "subseq filtered rs"
    by (simp add: apply_static_filter_def filter_domains_subseq)
  then have "set filtered \<subseteq> set rs" by (auto dest: list_emb_set)
  with assms have ok: "\<forall>r\<in>set filtered. \<exists>p. urlparse (url r) = Inr p" by blast
  obtain res tr where tl: "track_search_results (frequency_tracker ef) name filtered = (res, tr)"
    by (cases "track_search_results (frequency_tracker ef) name filtered")
  have "fst (track_search_results (frequency_tracker ef) name filtered) = Inr ()"
    unfolding track_search_results_def by (rule track_loop_returns [OF ok])
  with tl have res: "res = Inr ()" by simp
  from filter_domains_returns [OF ok] obtain zs where
    "filter_domains (identify_aggregators tr 0.3 3) filtered = Inr zs" by blast
  with st tl res show ?thesis
    by (simp add: enhanced_filter_results_def apply_dynamic_filter_def)
qed

text \<open>
  Claim C10: each of the three filtering operations, when it returns, returns a
  subsequence of the list it was given: the survivors in their order, none repeated,
  changed or added. \<open>BlocklistFilter.filter_results\<close> always returns;
  \<open>filter_by_confidence\<close> returns when the weights hold the four signal names, and the
  enhanced filter when \<open>urlparse\<close> accepts every URL.
\<close>

theorem filters_return_subsequences:
  "subseq (filter_results bf rs) rs
   \<and> (fst (filter_by_confidence set_iter sc rs company threshold) = Inr ys \<longrightarrow> subseq ys rs)
   \<and> (fst (enhanced_filter_results ef rs name) = Inr zs \<longrightarrow> subseq zs rs)
   \<and> ({''domain_match'', ''tld_relevance'', ''search_position'', ''title_match''}
          \<subseteq> fst ` set (weights sc)
        \<longrightarrow> (\<exists>ys'. fst (filter_by_confidence set_iter sc rs company threshold) = Inr ys'))
   \<and> ((\<forall>r\<in>set rs. \<exists>p. urlparse (url r) = Inr p)
        \<longrightarrow> (\<exists>zs'. fst (enhanced_filter_results ef rs name) = Inr zs'))"
proof (intro conjI impI)
  show "subseq (filter_results bf rs) rs"
    by (simp add: filter_results_def)
next
  assume h: "fst (filter_by_confidence set_iter sc rs company threshold) = Inr ys"
  show "subseq ys rs"
  proof (cases "rs = []")
    case True
    with h show ?thesis by (simp add: filter_by_confidence_def)
  next
    case False
    with h have "fst (filter_by_confidence_loop set_iter sc company threshold [] rs) = Inr ys"
      by (simp add: filter_by_confidence_def)
    from filter_by_confidence_loop_subseq [OF this] show ?thesis by simp
  qed
next
  assume "fst (enhanced_filter_results ef rs name) = Inr zs"
  then show "subseq zs rs" by (rule enhanced_filter_results_subseq)
next
  assume k: "{''domain_match'', ''tld_relevance'', ''search_position'', ''title_match''}
          \<subseteq> fst ` set (weights sc)"
  show "\<exists>ys'. fst (filter_by_confidence set_iter sc rs company threshold) = Inr ys'"
  proof (cases "rs = []")
    case True
    then show ?thesis by (simp add: filter_by_confidence_def)
  next
    case False
    with filter_by_confidence_loop_returns [OF k] show ?thesis
      by (simp add: filter_by_confidence_def)
  qed
next
  assume "\<forall>r\<in>set rs. \<exists>p. urlparse (url r) = Inr p"
  then show "\<exists>zs'. fst (enhanced_filter_results ef rs name) = Inr zs'"
    by (rule enhanced_filter_results_returns)
qed


theorem filters_return_subsequences_witness:
  "subseq (filter_results (BlocklistFilter_init [''random-website.com''])
             [acme_result, random_result]) [acme_result, random_result]
   \<and> fst (filter_by_confidence remdups (ConfidenceScorer_init None)
             [\<lparr>url = [], title = [], snippet = [], position = 0\<rparr>, acme_result]
             acme_company 50) = Inr [acme_result]
   \<and> subseq [acme_result] [\<lparr>url = [], title = [], snippet = [], position = 0\<rparr>, acme_result]
   \<and> fst (enhanced_filter_results
             \<lparr>static_blocklist = [''random-website.com''],
              frequency_tracker = DomainFrequencyTracker_init\<rparr>
             [acme_result, random_result] ''ACME SOFTWARE LIMITED'') = Inr [acme_result]
   \<and> subseq [acme_result] [acme_result, random_result]"
proof -
  have h1: "fst (filter_by_confidence remdups (ConfidenceScorer_init None)
             [\<lparr>url = [], title = [], snippet = [], position = 0\<rparr>, acme_result]
             acme_company 50) = Inr [acme_result]"
    by code_simp
  have h2: "fst (enhanced_filter_results
             \<lparr>static_blocklist = [''random-website.com''],
              frequency_tracker = DomainFrequencyTracker_init\<rparr>
             [acme_result, random_result] ''ACME SOFTWARE LIMITED'') = Inr [acme_result]"
    by code_simp
  have a: "subseq (filter_results (BlocklistFilter_init [''random-website.com''])
             [acme_result, random_result]) [acme_result, random_result]"
    using filters_return_subsequences
      [of "BlocklistFilter_init [''random-website.com'']" "[acme_result, random_result]"]
    by blast
  have b: "subseq [acme_result] [\<lparr>url = [], title = [], snippet = [], position = 0\<rparr>, acme_result]"
    using filters_return_subsequences
      [of _ "[\<lparr>url = [], title = [], snippet = [], position = 0\<rparr>, acme_result]"
          remdups "ConfidenceScorer_init None" acme_company 50 "[acme_result]"]
      h1
    by blast
  have c: "subseq [acme_result] [acme_result, random_result]"
    using filters_return_subsequences
      [of _ "[acme_result, random_result]" _ _ _ _ _
          "\<lparr>static_blocklist = [''random-website.com''],
            frequency_tracker = DomainFrequencyTracker_init\<rparr>"
          "''ACME SOFTWARE LIMITED''" "[acme_result]"]
      h2
    by blast
  have k: "{''domain_match'', ''tld_relevance'', ''search_position'', ''title_match''}
          \<subseteq> fst ` set (weights (ConfidenceScorer_init None))"
    by (simp add: ConfidenceScorer_init_def default_weights_def sum_values_def)
  have u: "\<forall>r\<in>set [acme_result, random_result]. \<exists>p. urlparse (url r) = Inr p"
  proof -
    have "urlparse (url acme_result) =
        Inr \<lparr>scheme = ''https'', netloc = ''acmesoftware.co.uk'', path = [], query = [],
              fragment = []\<rparr>"
      by code_simp
    moreover have "urlparse (url random_result) =
        Inr \<lparr>scheme = ''https'', netloc = ''random-website.com'', path = ''/acme'',
              query = [], fragment = []\<rparr>"
      by code_simp
    ultimately show ?thesis by simp
  qed
  have d: "\<exists>ys'. fst (filter_by_confidence remdups (ConfidenceScorer_init None)
             [\<lparr>url = [], title = [], snippet = [], position = 0\<rparr>, acme_result]
             acme_company 50) = Inr ys'"
    using filters_return_subsequences
      [of _ "[\<lparr>url = [], title = [], snippet = [], position = 0\<rparr>, acme_result]"
          remdups "ConfidenceScorer_init None" acme_company 50]
      k
    by blast
  have e: "\<exists>zs'. fst (enhanced_filter_results
             \<lparr>static_blocklist = [''random-website.com''],
              frequency_tracker = DomainFrequencyTracker_init\<rparr>
             [acme_result, random_result] ''ACME SOFTWARE LIMITED'') = Inr zs'"
    using filters_return_subsequences
      [of _ "[acme_result, random_result]" _ _ _ _ _
          "\<lparr>static_blocklist = [''random-website.com''],
            frequency_tracker = DomainFrequencyTracker_init\<rparr>"
          "''ACME SOFTWARE LIMITED''"]
      u
    by blast
  from a b c d e h1 h2 show ?thesis by blast
qed

end
